theory Spec2Isabelle
  imports Complex_Main
begin

section \<open>Arrays and the store\<close>

text \<open>
  A numpy array is a shape together with its flat, row-major data. Amplitudes are complex
  numbers; the floating-point rounding of \<open>complex64\<close>/\<open>complex128\<close> is not modelled, so
  every weight below is an exact real. Python variables hold references to arrays: a
  reference is an address into a store, and two references alias exactly when they are
  the same address (\<open>is\<close> in the source). Views onto part of another array are outside
  the model.
\<close>

type_synonym addr = nat

record ndarray =
  shape :: "nat list"
  data :: "complex list"

record store =
  cells :: "addr \<Rightarrow> ndarray"
  next_addr :: addr

definition store_write :: "store \<Rightarrow> addr \<Rightarrow> ndarray \<Rightarrow> store" where
  "store_write h a v = h\<lparr>cells := (cells h)(a := v)\<rparr>"

text \<open>A new array object: the next unused address, holding the given contents.\<close>

definition alloc :: "store \<Rightarrow> ndarray \<Rightarrow> addr \<times> store" where
  "alloc h v = (next_addr h, \<lparr>cells = (cells h)(next_addr h := v), next_addr = Suc (next_addr h)\<rparr>)"

text \<open>\<open>np.empty_like(a)\<close>: a new array of the shape of \<open>a\<close>. Its contents are
  uninitialised in numpy; the model fills it with zeros and nothing below reads them.\<close>

definition empty_like :: "store \<Rightarrow> addr \<Rightarrow> addr \<times> store" where
  "empty_like h a =
     alloc h \<lparr>shape = shape (cells h a), data = replicate (length (data (cells h a))) 0\<rparr>"

text \<open>\<open>e.reshape(s)\<close> relabels the shape of the same data (\<open>astype\<close> to the dtype of the
  state vector changes nothing here).\<close>

definition reshape :: "ndarray \<Rightarrow> nat list \<Rightarrow> ndarray" where
  "reshape e s = e\<lparr>shape := s\<rparr>"

text \<open>\<open>np.linalg.norm(a)\<close> of an array with no \<open>ord\<close>: the 2-norm of the flattened data.\<close>

definition linalg_norm :: "ndarray \<Rightarrow> real" where
  "linalg_norm a = sqrt (\<Sum>z\<leftarrow>data a. (cmod z)\<^sup>2)"

section \<open>Errors\<close>

datatype error =
  AssertionError string | TypeError string | ValueError string | KeyError string
  | IndexError string

section \<open>What the state vector consumes from outside\<close>

text \<open>
  The library routines that the source calls and that are not part of it are taken as
  parameters: \<open>linalg.targeted_left_multiply\<close> (matrix tensor, target, axes; the result
  is what gets written to \<open>out\<close>), the generator's \<open>random()\<close> and
  \<open>choice(range(n), p=...)\<close>, \<open>sim.measure_state_vector\<close> (collapsed state and the
  measured digits), \<open>ActOnArgs.get_axes\<close> (from the qubits of the simulation state and
  the qubits acted on), the \<open>record_channel_measurement(key, index)\<close> method of the
  classical data store, and what numpy leaves in an array whose entries are all divided
  by zero (\<open>divide_by_zero\<close>: entries \<open>nan\<close> or \<open>inf\<close>, which are not complex numbers, so
  the model leaves that array open). \<open>'g\<close> is the generator's state, \<open>'q\<close> the qubit identity type and
  \<open>'c\<close> the classical data store.
\<close>

record ('g, 'q, 'c) externals =
  targeted_left_multiply :: "ndarray \<Rightarrow> ndarray \<Rightarrow> nat list \<Rightarrow> ndarray"
  prng_random :: "'g \<Rightarrow> real \<times> 'g"
  prng_choice :: "'g \<Rightarrow> nat \<Rightarrow> real list \<Rightarrow> nat \<times> 'g"
  measure_state_vector :: "ndarray \<Rightarrow> nat list \<Rightarrow> nat list \<Rightarrow> 'g \<Rightarrow> (nat list \<times> ndarray) \<times> 'g"
  get_axes :: "'q list \<Rightarrow> 'q list \<Rightarrow> nat list"
  record_channel_measurement :: "'c \<Rightarrow> string \<Rightarrow> nat \<Rightarrow> 'c"
  divide_by_zero :: "ndarray \<Rightarrow> ndarray"

text \<open>\<open>a /= c\<close> for a real scalar \<open>c\<close>: every entry is divided by \<open>c\<close>. When \<open>c\<close> is zero
  numpy raises nothing (it warns) and leaves \<open>nan\<close>/\<open>inf\<close> entries.\<close>

definition divide_inplace :: "('g, 'q, 'c) externals \<Rightarrow> ndarray \<Rightarrow> real \<Rightarrow> ndarray" where
  "divide_inplace ext a c =
     (if c = 0 then divide_by_zero ext a
      else a\<lparr>data := map (\<lambda>z. z / complex_of_real c) (data a)\<rparr>)"

text \<open>
  An action is known through the capability probes of the source: the result of
  \<open>protocols.apply_unitary\<close> on a target and a buffer (\<open>None\<close> for \<open>NotImplemented\<close>,
  otherwise the reference it returns and the store it leaves), \<open>protocols.mixture\<close>,
  \<open>protocols.kraus\<close> (\<open>None\<close> for the default), \<open>protocols.qid_shape\<close>,
  \<open>protocols.is_measurement\<close>, \<open>protocols.measurement_key_name\<close> and \<open>repr\<close>.
\<close>

record action =
  apply_unitary_protocol :: "store \<Rightarrow> addr \<Rightarrow> addr \<Rightarrow> nat list \<Rightarrow> (addr \<times> store) option"
  mixture :: "(real \<times> ndarray) list option"
  kraus :: "ndarray list option"
  qid_shape :: "nat list"
  is_measurement :: bool
  measurement_key_name :: string
  repr :: string

section \<open>The buffered state vector\<close>

record buffered_state_vector =
  state_vector :: addr
  buffer :: addr

text \<open>\<open>__init__\<close>: the buffer is created when none is given.\<close>

definition bsv_init :: "store \<Rightarrow> addr \<Rightarrow> addr option \<Rightarrow> buffered_state_vector \<times> store" where
  "bsv_init h sv buf =
     (case buf of
        None \<Rightarrow> (let (b, h') = empty_like h sv in (\<lparr>state_vector = sv, buffer = b\<rparr>, h'))
      | Some b \<Rightarrow> (\<lparr>state_vector = sv, buffer = b\<rparr>, h))"

text \<open>
  \<open>create\<close>. The initial state is either an array the caller holds, or a state-like value
  from which \<open>qis.to_valid_state_vector\<close> builds a new array (given here as that array's
  contents). In the array case \<open>reshape\<close> yields a view or a copy, and a result sharing
  memory with the caller's array is copied; in each case the state vector is an array of
  its own.
\<close>

datatype initial_state = InitialArray addr | InitialLike ndarray

definition create ::
  "store \<Rightarrow> initial_state \<Rightarrow> nat list option \<Rightarrow> addr option
     \<Rightarrow> error + (buffered_state_vector \<times> store)" where
  "create h initial qshape buf =
     (case initial of
        InitialLike v \<Rightarrow>
          (case qshape of
             None \<Rightarrow> Inl (ValueError ''qid_shape must be provided if initial_state is not ndarray'')
           | Some s \<Rightarrow> (let (sv, h1) = alloc h (reshape v s) in Inr (bsv_init h1 sv buf)))
      | InitialArray a \<Rightarrow>
          (let v = (case qshape of None \<Rightarrow> cells h a | Some s \<Rightarrow> reshape (cells h a) s);
               (sv, h1) = alloc h v
           in Inr (bsv_init h1 sv buf)))"

definition swap_target_tensor_for :: "buffered_state_vector \<Rightarrow> addr \<Rightarrow> buffered_state_vector" where
  "swap_target_tensor_for self new_target_tensor =
     (let self1 = (if new_target_tensor = buffer self
                   then self\<lparr>buffer := state_vector self\<rparr> else self)
      in self1\<lparr>state_vector := new_target_tensor\<rparr>)"

definition apply_unitary ::
  "action \<Rightarrow> nat list \<Rightarrow> store \<Rightarrow> buffered_state_vector \<Rightarrow> bool \<times> store \<times> buffered_state_vector" where
  "apply_unitary act axes h self =
     (case apply_unitary_protocol act h (state_vector self) (buffer self) axes of
        None \<Rightarrow> (False, h, self)
      | Some (new_target_tensor, h') \<Rightarrow> (True, h', swap_target_tensor_for self new_target_tensor))"

text \<open>\<open>apply_mixture\<close>. Unpacking \<open>zip(*mixture)\<close> of an empty mixture into two names is
  a \<open>ValueError\<close>, and an index outside the tuple of unitaries an \<open>IndexError\<close>.\<close>

definition apply_mixture ::
  "('g, 'q, 'c) externals \<Rightarrow> action \<Rightarrow> nat list \<Rightarrow> 'g \<Rightarrow> store \<Rightarrow> buffered_state_vector
     \<Rightarrow> error + (nat option \<times> 'g \<times> store \<times> buffered_state_vector)" where
  "apply_mixture ext act axes g h self =
     (case mixture act of
        None \<Rightarrow> Inr (None, g, h, self)
      | Some mix \<Rightarrow>
          if mix = [] then Inl (ValueError ''not enough values to unpack (expected 2, got 0)'')
          else
            (let probabilities = map fst mix;
                 unitaries = map snd mix;
                 (index, g') = prng_choice ext g (length unitaries) probabilities;
                 shp = qid_shape act @ qid_shape act
             in if index < length unitaries
                then (let unitary = reshape (unitaries ! index) shp;
                          h' = store_write h (buffer self)
                                 (targeted_left_multiply ext unitary (cells h (state_vector self)) axes)
                      in Inr (Some index, g', h', swap_target_tensor_for self (buffer self)))
                else Inl (IndexError ''tuple index out of range'')))"

subsection \<open>Channels\<close>

definition prepare_into_buffer ::
  "('g, 'q, 'c) externals \<Rightarrow> ndarray list \<Rightarrow> nat list \<Rightarrow> buffered_state_vector \<Rightarrow> nat \<Rightarrow> store \<Rightarrow> store" where
  "prepare_into_buffer ext kraus_tensors axes self k h =
     store_write h (buffer self)
       (targeted_left_multiply ext (kraus_tensors ! k) (cells h (state_vector self)) axes)"

text \<open>The local variables of \<open>apply_channel\<close> that its loop updates.\<close>

record channel_vars =
  cv_store :: store
  cv_p :: real
  cv_weight :: "real option"
  cv_fallback_weight :: real
  cv_fallback_weight_index :: nat
  cv_index :: "nat option"

text \<open>One pass of the body of \<open>for index in range(len(kraus_tensors))\<close>, up to the test
  that breaks out of the loop.\<close>

definition channel_body ::
  "('g, 'q, 'c) externals \<Rightarrow> ndarray list \<Rightarrow> nat list \<Rightarrow> buffered_state_vector \<Rightarrow> nat
     \<Rightarrow> channel_vars \<Rightarrow> channel_vars" where
  "channel_body ext kraus_tensors axes self i v =
     (let h = prepare_into_buffer ext kraus_tensors axes self i (cv_store v);
          weight = (linalg_norm (cells h (buffer self)))\<^sup>2;
          v1 = v\<lparr>cv_store := h, cv_weight := Some weight, cv_index := Some i\<rparr>;
          v2 = (if weight > cv_fallback_weight v1
                then v1\<lparr>cv_fallback_weight_index := i, cv_fallback_weight := weight\<rparr>
                else v1)
      in v2\<lparr>cv_p := cv_p v2 - weight\<rparr>)"

fun channel_loop ::
  "('g, 'q, 'c) externals \<Rightarrow> ndarray list \<Rightarrow> nat list \<Rightarrow> buffered_state_vector \<Rightarrow> nat list
     \<Rightarrow> channel_vars \<Rightarrow> channel_vars" where
  "channel_loop ext kraus_tensors axes self [] v = v"
| "channel_loop ext kraus_tensors axes self (i # rest) v =
     (let v' = channel_body ext kraus_tensors axes self i v
      in if cv_p v' < 0 then v' else channel_loop ext kraus_tensors axes self rest v')"

definition apply_channel ::
  "('g, 'q, 'c) externals \<Rightarrow> action \<Rightarrow> nat list \<Rightarrow> 'g \<Rightarrow> store \<Rightarrow> buffered_state_vector
     \<Rightarrow> error + (nat option \<times> 'g \<times> store \<times> buffered_state_vector)" where
  "apply_channel ext act axes g h self =
     (case kraus act of
        None \<Rightarrow> Inr (None, g, h, self)
      | Some kraus_operators \<Rightarrow>
          (let shp = qid_shape act;
               kraus_tensors = map (\<lambda>e. reshape e (shp @ shp)) kraus_operators;
               (p, g') = prng_random ext g;
               v = channel_loop ext kraus_tensors axes self [0..<length kraus_tensors]
                     \<lparr>cv_store = h, cv_p = p, cv_weight = None, cv_fallback_weight = 0,
                      cv_fallback_weight_index = 0, cv_index = None\<rparr>
           in case cv_weight v of
                None \<Rightarrow> Inl (AssertionError ''No Kraus operators'')
              | Some weight0 \<Rightarrow>
                  (let (h1, weight, index) =
                         (if cv_p v \<ge> 0 \<or> weight0 = 0
                          then (prepare_into_buffer ext kraus_tensors axes self
                                  (cv_fallback_weight_index v) (cv_store v),
                                cv_fallback_weight v,
                                Some (cv_fallback_weight_index v))
                          else (cv_store v, weight0, cv_index v));
                       h2 = store_write h1 (buffer self)
                              (divide_inplace ext (cells h1 (buffer self)) (sqrt weight))
                   in Inr (index, g', h2, swap_target_tensor_for self (buffer self)))))"

text \<open>\<open>measure\<close> collapses the state vector in place (\<open>out\<close> is the state vector itself).\<close>

definition measure_bsv ::
  "('g, 'q, 'c) externals \<Rightarrow> nat list \<Rightarrow> nat list \<Rightarrow> 'g \<Rightarrow> store \<Rightarrow> buffered_state_vector
     \<Rightarrow> nat list \<times> 'g \<times> store \<times> buffered_state_vector" where
  "measure_bsv ext axes qshape seed h self =
     (let ((bits, collapsed), g') =
            measure_state_vector ext (cells h (state_vector self)) axes qshape seed
      in (bits, g', store_write h (state_vector self) collapsed, self))"

section \<open>Notions used to state the properties of channel application\<close>

text \<open>The buffer contents and the weight that operator \<open>k\<close> produces from the state \<open>S\<close>.\<close>

definition kraus_image :: "('g, 'q, 'c) externals \<Rightarrow> ndarray list \<Rightarrow> ndarray \<Rightarrow> nat list \<Rightarrow> nat \<Rightarrow> ndarray" where
  "kraus_image ext kts S axes k = targeted_left_multiply ext (kts ! k) S axes"

definition kraus_weight :: "('g, 'q, 'c) externals \<Rightarrow> ndarray list \<Rightarrow> ndarray \<Rightarrow> nat list \<Rightarrow> nat \<Rightarrow> real" where
  "kraus_weight ext kts S axes k = (linalg_norm (kraus_image ext kts S axes k))\<^sup>2"

definition fallback_step :: "(nat \<Rightarrow> real) \<Rightarrow> real \<times> nat \<Rightarrow> nat \<Rightarrow> real \<times> nat" where
  "fallback_step w acc k = (if w k > fst acc then (w k, k) else acc)"

definition kraus_tensors_of :: "action \<Rightarrow> ndarray list \<Rightarrow> ndarray list" where
  "kraus_tensors_of act ks = map (\<lambda>e. reshape e (qid_shape act @ qid_shape act)) ks"

definition channel_weights ::
  "('g, 'q, 'c) externals \<Rightarrow> action \<Rightarrow> nat list \<Rightarrow> store \<Rightarrow> buffered_state_vector \<Rightarrow> real list" where
  "channel_weights ext act axes h self =
     map (\<lambda>e. (linalg_norm (targeted_left_multiply ext
                   (reshape e (qid_shape act @ qid_shape act))
                   (cells h (state_vector self)) axes))\<^sup>2)
       (case kraus act of None \<Rightarrow> [] | Some ks \<Rightarrow> ks)"

text \<open>
  A concrete instance on which the statements below are evaluated: one qubit in the basis
  state 0, a left multiplication that acts on the whole (one-qubit) system, a generator
  that replays a list of draws and chooses the last alternative, and a channel of two
  operators whose weights on that state are 3/10 and 7/10. The entries that a division by
  zero leaves have no complex value; the example keeps the shape and drops them.
\<close>

definition full_left_multiply :: "ndarray \<Rightarrow> ndarray \<Rightarrow> nat list \<Rightarrow> ndarray" where
  "full_left_multiply m t axes =
     (let n = length (data t)
      in \<lparr>shape = shape t,
          data = map (\<lambda>r. \<Sum>c\<leftarrow>[0..<n]. data m ! (r * n + c) * data t ! c) [0..<n]\<rparr>)"

definition ex_ext :: "(real list, nat, (string \<times> nat) list) externals" where
  "ex_ext = \<lparr>targeted_left_multiply = full_left_multiply,
             prng_random = (\<lambda>g. (hd g, tl g)),
             prng_choice = (\<lambda>g n ps. (n - 1, g)),
             measure_state_vector = (\<lambda>t axes qs g. (([], t), g)),
             get_axes = (\<lambda>qs q. q),
             record_channel_measurement = (\<lambda>c key i. c @ [(key, i)]),
             divide_by_zero = (\<lambda>a. a\<lparr>data := []\<rparr>)\<rparr>"

definition ex_kraus :: "ndarray list" where
  "ex_kraus = [\<lparr>shape = [2, 2], data = [Complex (1/2) (1/5), 0, 1/10, 0]\<rparr>,
               \<lparr>shape = [2, 2], data = [Complex (3/5) (1/2), 0, 3/10, 0]\<rparr>]"

definition ex_channel :: action where
  "ex_channel = \<lparr>apply_unitary_protocol = (\<lambda>h t b axes. None), mixture = None,
                 kraus = Some ex_kraus, qid_shape = [2], is_measurement = False,
                 measurement_key_name = [], repr = ''ex_channel''\<rparr>"

definition ex_store :: store where
  "ex_store = \<lparr>cells = (\<lambda>a. \<lparr>shape = [2], data = [1, 0]\<rparr>), next_addr = 2\<rparr>"

definition ex_self :: buffered_state_vector where
  "ex_self = \<lparr>state_vector = 0, buffer = 1\<rparr>"

definition ex_no_operators :: action where
  "ex_no_operators = ex_channel\<lparr>kraus := Some []\<rparr>"

definition ex_no_channel :: action where
  "ex_no_channel = ex_channel\<lparr>kraus := None\<rparr>"

definition ex_lossy_kraus :: "ndarray list" where
  "ex_lossy_kraus = [\<lparr>shape = [2, 2], data = [Complex (3/10) (1/10), 0, 0, 0]\<rparr>,
                     \<lparr>shape = [2, 2], data = [1/2, 0, 0, 0]\<rparr>,
                     \<lparr>shape = [2, 2], data = [Complex (1/10) (3/10), 0, 0, 0]\<rparr>]"

definition ex_lossy :: action where
  "ex_lossy = ex_channel\<lparr>kraus := Some ex_lossy_kraus\<rparr>"

definition ex_null_kraus :: "ndarray list" where
  "ex_null_kraus = [\<lparr>shape = [2, 2], data = [0, 0, 0, 0]\<rparr>,
                    \<lparr>shape = [2, 2], data = [0, 0, 0, 0]\<rparr>]"

definition ex_null :: action where
  "ex_null = ex_channel\<lparr>kraus := Some ex_null_kraus\<rparr>"

definition ex_measured_mixture :: action where
  "ex_measured_mixture =
     \<lparr>apply_unitary_protocol = (\<lambda>h t b axes. None),
      mixture = Some [(1/4, \<lparr>shape = [2, 2], data = [1, 0, 0, 1]\<rparr>),
                      (3/4, \<lparr>shape = [2, 2], data = [0, 1, 1, 0]\<rparr>)],
      kraus = None, qid_shape = [2], is_measurement = True,
      measurement_key_name = ''mx'', repr = ''ex_measured_mixture''\<rparr>"

section \<open>The simulation state and its dispatch chain\<close>

text \<open>
  \<open>ActOnStateVectorArgs\<close>: the buffered state vector (with the store its references point
  into), the generator, the classical data store and the qubits.
\<close>

record ('g, 'q, 'c) act_on_state_vector_args =
  heap :: store
  state :: buffered_state_vector
  prng :: 'g
  classical_data :: 'c
  qubits :: "'q list"

text \<open>What a strategy returns: \<open>True\<close>, \<open>False\<close>, \<open>NotImplemented\<close>, or anything else
  (kept as its \<open>str\<close>).\<close>

datatype strat_result = RTrue | RFalse | RNotImplemented | ROther string

definition strat_act_on_state_vector_from_apply_unitary ::
  "('g, 'q, 'c) externals \<Rightarrow> action \<Rightarrow> ('g, 'q, 'c) act_on_state_vector_args \<Rightarrow> 'q list
     \<Rightarrow> error + (strat_result \<times> ('g, 'q, 'c) act_on_state_vector_args)" where
  "strat_act_on_state_vector_from_apply_unitary ext act args qs =
     (let (ok, h', st') = apply_unitary act (get_axes ext (qubits args) qs) (heap args) (state args)
      in Inr (if ok then RTrue else RNotImplemented, args\<lparr>heap := h', state := st'\<rparr>))"

definition strat_act_on_state_vector_from_mixture ::
  "('g, 'q, 'c) externals \<Rightarrow> action \<Rightarrow> ('g, 'q, 'c) act_on_state_vector_args \<Rightarrow> 'q list
     \<Rightarrow> error + (strat_result \<times> ('g, 'q, 'c) act_on_state_vector_args)" where
  "strat_act_on_state_vector_from_mixture ext act args qs =
     (case apply_mixture ext act (get_axes ext (qubits args) qs) (prng args) (heap args) (state args) of
        Inl e \<Rightarrow> Inl e
      | Inr (index, g', h', st') \<Rightarrow>
          (let args1 = args\<lparr>heap := h', state := st', prng := g'\<rparr>
           in case index of
                None \<Rightarrow> Inr (RNotImplemented, args1)
              | Some i \<Rightarrow>
                  if is_measurement act
                  then Inr (RTrue, args1\<lparr>classical_data :=
                              record_channel_measurement ext (classical_data args1)
                                (measurement_key_name act) i\<rparr>)
                  else Inr (RTrue, args1)))"

definition strat_act_on_state_vector_from_channel ::
  "('g, 'q, 'c) externals \<Rightarrow> action \<Rightarrow> ('g, 'q, 'c) act_on_state_vector_args \<Rightarrow> 'q list
     \<Rightarrow> error + (strat_result \<times> ('g, 'q, 'c) act_on_state_vector_args)" where
  "strat_act_on_state_vector_from_channel ext act args qs =
     (case apply_channel ext act (get_axes ext (qubits args) qs) (prng args) (heap args) (state args) of
        Inl e \<Rightarrow> Inl e
      | Inr (index, g', h', st') \<Rightarrow>
          (let args1 = args\<lparr>heap := h', state := st', prng := g'\<rparr>
           in case index of
                None \<Rightarrow> Inr (RNotImplemented, args1)
              | Some i \<Rightarrow>
                  if is_measurement act
                  then Inr (RTrue, args1\<lparr>classical_data :=
                              record_channel_measurement ext (classical_data args1)
                                (measurement_key_name act) i\<rparr>)
                  else Inr (RTrue, args1)))"

text \<open>The message of the \<open>TypeError\<close> that ends \<open>_act_on_fallback_\<close>.\<close>

definition cannot_simulate :: "action \<Rightarrow> string" where
  "cannot_simulate act =
     ''Can'' @ [CHR 0x27] @ ''t simulate operations that don'' @ [CHR 0x27] @ ''t implement '' @
     ''SupportsUnitary, SupportsConsistentApplyUnitary, '' @
     ''SupportsMixture or is a measurement: '' @ repr act"

text \<open>
  The loop over the strategies. A strategy is given applied to the action and the qubits;
  it takes the simulation state and returns its result with the state it leaves, or
  raises.
\<close>

fun try_strats ::
  "('a \<Rightarrow> error + (strat_result \<times> 'a)) list \<Rightarrow> action \<Rightarrow> 'a \<Rightarrow> error + (bool \<times> 'a)" where
  "try_strats [] act args = Inl (TypeError (cannot_simulate act))"
| "try_strats (strat # rest) act args =
     (case strat args of
        Inl e \<Rightarrow> Inl e
      | Inr (RFalse, args') \<Rightarrow> Inl (TypeError (cannot_simulate act))
      | Inr (RTrue, args') \<Rightarrow> Inr (True, args')
      | Inr (RNotImplemented, args') \<Rightarrow> try_strats rest act args'
      | Inr (ROther r, args') \<Rightarrow> Inl (AssertionError r))"

text \<open>
  \<open>_act_on_fallback_\<close>. \<open>strat_act_on_from_apply_decompose\<close> belongs to the base class of
  the simulation state and is a parameter here.
\<close>

definition act_on_fallback ::
  "('g, 'q, 'c) externals
     \<Rightarrow> (action \<Rightarrow> ('g, 'q, 'c) act_on_state_vector_args \<Rightarrow> 'q list
           \<Rightarrow> error + (strat_result \<times> ('g, 'q, 'c) act_on_state_vector_args))
     \<Rightarrow> action \<Rightarrow> ('g, 'q, 'c) act_on_state_vector_args \<Rightarrow> 'q list \<Rightarrow> bool
     \<Rightarrow> error + (bool \<times> ('g, 'q, 'c) act_on_state_vector_args)" where
  "act_on_fallback ext strat_act_on_from_apply_decompose act args qs allow_decompose =
     (let strats = [\<lambda>a. strat_act_on_state_vector_from_apply_unitary ext act a qs,
                    \<lambda>a. strat_act_on_state_vector_from_mixture ext act a qs,
                    \<lambda>a. strat_act_on_state_vector_from_channel ext act a qs];
          strats = (if allow_decompose
                    then strats @ [\<lambda>a. strat_act_on_from_apply_decompose act a qs]
                    else strats)
      in try_strats strats act args)"

text \<open>\<open>needle in haystack\<close> for strings.\<close>

fun occurs_in :: "string \<Rightarrow> string \<Rightarrow> bool" where
  "occurs_in needle [] = (needle = [])"
| "occurs_in needle (c # cs) =
     (take (length needle) (c # cs) = needle \<or> occurs_in needle cs)"


definition ex_unitary :: action where
  "ex_unitary =
     \<lparr>apply_unitary_protocol =
        (\<lambda>h t b axes. Some (b, store_write h b
           (full_left_multiply \<lparr>shape = [2, 2], data = [0, 1, 1, 0]\<rparr> (cells h t) axes))),
      mixture = None, kraus = None, qid_shape = [2], is_measurement = False,
      measurement_key_name = [], repr = ''ex_unitary''\<rparr>"

definition ex_inert :: action where
  "ex_inert = \<lparr>apply_unitary_protocol = (\<lambda>h t b axes. None), mixture = None,
               kraus = None, qid_shape = [2], is_measurement = False,
               measurement_key_name = [], repr = ''ex_inert''\<rparr>"

definition ex_args :: "(real list, nat, (string \<times> nat) list) act_on_state_vector_args" where
  "ex_args = \<lparr>heap = ex_store, state = ex_self, prng = [19/20], classical_data = [], qubits = [0]\<rparr>"

definition ex_no_decompose ::
  "action \<Rightarrow> (real list, nat, (string \<times> nat) list) act_on_state_vector_args \<Rightarrow> nat list
     \<Rightarrow> error + (strat_result \<times> (real list, nat, (string \<times> nat) list) act_on_state_vector_args)" where
  "ex_no_decompose act a qs = Inr (RNotImplemented, a)"

definition ex_measured_channel :: action where
  "ex_measured_channel = ex_channel\<lparr>is_measurement := True, measurement_key_name := ''m''\<rparr>"

section \<open>Pauli transforms and stabilizer tableaux\<close>

text \<open>
  The test module \<open>clifford_gate_test\<close> is the part of the Clifford algebra that is
  present; the classes it exercises (\<open>Pauli\<close>, \<open>PauliTransform\<close>, \<open>CliffordTableau\<close>,
  \<open>SingleQubitCliffordGate\<close>, \<open>CliffordGate\<close>) are modelled from the specification, and
  the data in the tests is used to check the model.
\<close>

text \<open>Modelled from the spec: the Pauli axes \<open>cirq.X\<close>, \<open>cirq.Y\<close>, \<open>cirq.Z\<close> (class
  \<open>Pauli\<close> is missing).\<close>

datatype pauli = X | Y | Z

text \<open>Modelled from the spec: \<open>PauliTransform\<close>, the pair of a target axis and a sign-flip
  flag, compared by value.\<close>

record pauli_transform =
  to :: pauli
  flip :: bool

text \<open>Modelled from the spec: \<open>CliffordTableau\<close> (the symplectic tableau) for \<open>num_qubits\<close>
  qubits: \<open>2 * num_qubits\<close> rows, each with its X bits, its Z bits and a sign bit. Row
  \<open>i < num_qubits\<close> is the image of X on qubit \<open>i\<close>, row \<open>num_qubits + i\<close> the image of Z on
  qubit \<open>i\<close>. Two tableaux are equal when these agree.\<close>

record clifford_tableau =
  num_qubits :: nat
  xs :: "bool list list"
  zs :: "bool list list"
  rs :: "bool list"

text \<open>Modelled from the spec: \<open>CliffordTableau.matrix()\<close>, the X block beside the Z
  block.\<close>

definition matrix :: "clifford_tableau \<Rightarrow> bool list list" where
  "matrix T = map2 (@) (xs T) (zs T)"

text \<open>Modelled from the spec: a Pauli operator on all qubits with its phase, \<open>\<i>\<close> to the
  power \<open>ps_phase\<close> times the product over the qubits of X to the bit \<open>ps_x\<close> times Z to
  the bit \<open>ps_z\<close>. This is what a tableau transforms ("applying to Pauli
  operators").\<close>

record pauli_string =
  ps_phase :: nat
  ps_x :: "bool list"
  ps_z :: "bool list"

text \<open>Modelled from the spec: addition of bit rows modulo 2.\<close>

definition xor_bits :: "bool list \<Rightarrow> bool list \<Rightarrow> bool list" where
  "xor_bits a b = map2 (\<noteq>) a b"

text \<open>Modelled from the spec: the number of positions at which both rows have a bit.\<close>

definition overlap :: "bool list \<Rightarrow> bool list \<Rightarrow> nat" where
  "overlap a b = length (filter id (map2 (\<and>) a b))"

text \<open>Modelled from the spec: the product of two Pauli operators; moving a Z past an X
  on the same qubit contributes a factor \<open>-1\<close>.\<close>

definition mul_pauli_string :: "pauli_string \<Rightarrow> pauli_string \<Rightarrow> pauli_string" where
  "mul_pauli_string P Q =
     \<lparr>ps_phase = (ps_phase P + ps_phase Q + 2 * overlap (ps_z P) (ps_x Q)) mod 4,
      ps_x = xor_bits (ps_x P) (ps_x Q),
      ps_z = xor_bits (ps_z P) (ps_z Q)\<rparr>"

text \<open>Modelled from the spec: the Pauli operator that row \<open>i\<close> of a tableau stands for. A
  position with both bits is a Y, which is \<open>\<i>\<close> X Z; the sign bit is a factor \<open>-1\<close>.\<close>

definition row_string :: "clifford_tableau \<Rightarrow> nat \<Rightarrow> pauli_string" where
  "row_string T i =
     \<lparr>ps_phase = (2 * (if rs T ! i then 1 else 0) + overlap (xs T ! i) (zs T ! i)) mod 4,
      ps_x = xs T ! i, ps_z = zs T ! i\<rparr>"

text \<open>Modelled from the spec: the image of a Pauli operator under a tableau, built qubit
  by qubit from the images of the generators (the rows).\<close>

definition image_step :: "clifford_tableau \<Rightarrow> pauli_string \<Rightarrow> pauli_string \<Rightarrow> nat \<Rightarrow> pauli_string" where
  "image_step T P acc q =
     (let acc1 = (if ps_x P ! q then mul_pauli_string acc (row_string T q) else acc)
      in if ps_z P ! q then mul_pauli_string acc1 (row_string T (num_qubits T + q)) else acc1)"

text \<open>Modelled from the spec: see \<open>image_step\<close>.\<close>

definition image_of :: "clifford_tableau \<Rightarrow> pauli_string \<Rightarrow> pauli_string" where
  "image_of T P =
     foldl (image_step T P)
       \<lparr>ps_phase = ps_phase P mod 4, ps_x = replicate (num_qubits T) False,
        ps_z = replicate (num_qubits T) False\<rparr>
       [0..<num_qubits T]"

text \<open>Modelled from the spec: the sign bit of a Pauli operator, what is left of the phase
  once each Y has taken its \<open>\<i>\<close>.\<close>

definition string_sign :: "pauli_string \<Rightarrow> bool" where
  "string_sign P = (((ps_phase P + 4 - overlap (ps_x P) (ps_z P) mod 4) mod 4) div 2 = 1)"

text \<open>Modelled from the spec: \<open>CliffordTableau.then\<close>, for tableaux of equal qubit count:
  the result stands for applying the first and then the second to Pauli operators, so its
  row \<open>i\<close> is the image under the second of row \<open>i\<close> of the first.\<close>

definition then_tableau :: "clifford_tableau \<Rightarrow> clifford_tableau \<Rightarrow> clifford_tableau" where
  "then_tableau T1 T2 =
     (let rows = map (\<lambda>i. image_of T2 (row_string T1 i)) [0..<2 * num_qubits T1]
      in \<lparr>num_qubits = num_qubits T1, xs = map ps_x rows, zs = map ps_z rows,
          rs = map string_sign rows\<rparr>)"

text \<open>Modelled from the spec: a row with a single bit, at position \<open>q\<close>.\<close>

definition unit_bits :: "nat \<Rightarrow> nat \<Rightarrow> bool list" where
  "unit_bits m q = map (\<lambda>c. c = q) [0..<m]"

text \<open>Modelled from the spec: \<open>CliffordTableau(num_qubits=m)\<close>, the identity tableau (no
  transform).\<close>

definition identity_tableau :: "nat \<Rightarrow> clifford_tableau" where
  "identity_tableau m =
     \<lparr>num_qubits = m,
      xs = map (unit_bits m) [0..<m] @ replicate m (replicate m False),
      zs = replicate m (replicate m False) @ map (unit_bits m) [0..<m],
      rs = replicate (2 * m) False\<rparr>"

section \<open>Single-qubit Clifford gates\<close>

text \<open>Modelled from the spec: the X bit and the Z bit of a Pauli axis in a tableau row
  (X is an X bit, Z is a Z bit, Y is both).\<close>

fun pauli_bits :: "pauli \<Rightarrow> bool \<times> bool" where
  "pauli_bits X = (True, False)"
| "pauli_bits Y = (True, True)"
| "pauli_bits Z = (False, True)"

text \<open>Modelled from the spec: the Pauli axis of a pair of bits; no bit at all is the
  identity operator, which is not an axis.\<close>

fun bits_pauli :: "bool \<Rightarrow> bool \<Rightarrow> pauli option" where
  "bits_pauli True False = Some X"
| "bits_pauli True True = Some Y"
| "bits_pauli False True = Some Z"
| "bits_pauli False False = None"

text \<open>Modelled from the spec: \<open>_to_clifford_tableau(x_to=..., z_to=...)\<close>, the one-qubit
  tableau whose first row is the image of X and whose second row is the image of Z.\<close>

definition to_clifford_tableau :: "pauli_transform \<Rightarrow> pauli_transform \<Rightarrow> clifford_tableau" where
  "to_clifford_tableau x_to z_to =
     \<lparr>num_qubits = 1,
      xs = [[fst (pauli_bits (to x_to))], [fst (pauli_bits (to z_to))]],
      zs = [[snd (pauli_bits (to x_to))], [snd (pauli_bits (to z_to))]],
      rs = [flip x_to, flip z_to]\<rparr>"

text \<open>Modelled from the spec: \<open>SingleQubitCliffordGate\<close>, backed by a one-qubit tableau and
  equal to another gate when the tableaux are equal.\<close>

datatype single_qubit_clifford_gate = SingleQubitCliffordGate (clifford_tableau: clifford_tableau)

text \<open>Modelled from the spec: \<open>SingleQubitCliffordGate.from_xz_map\<close>; two inputs mapped to
  the same output axis are an error (\<open>test_init_value_error\<close> expects \<open>ValueError\<close>).\<close>

definition from_xz_map :: "pauli_transform \<Rightarrow> pauli_transform \<Rightarrow> error + single_qubit_clifford_gate" where
  "from_xz_map x_to z_to =
     (if to x_to = to z_to
      then Inl (ValueError ''A rotation cannot map two Pauli axes to the same axis'')
      else Inr (SingleQubitCliffordGate (to_clifford_tableau x_to z_to)))"

text \<open>Modelled from the spec: a Pauli axis as an operator on one qubit.\<close>

fun pauli_as_string :: "pauli \<Rightarrow> pauli_string" where
  "pauli_as_string X = \<lparr>ps_phase = 0, ps_x = [True], ps_z = [False]\<rparr>"
| "pauli_as_string Y = \<lparr>ps_phase = 1, ps_x = [True], ps_z = [True]\<rparr>"
| "pauli_as_string Z = \<lparr>ps_phase = 0, ps_x = [False], ps_z = [True]\<rparr>"

text \<open>Modelled from the spec: \<open>SingleQubitCliffordGate.transform\<close>, how a Pauli axis maps:
  the rows for X and Z, and for Y the image derived from them. \<open>None\<close> stands for an image
  that is not a Pauli axis, which a tableau that is not symplectic can give.\<close>

definition transform :: "single_qubit_clifford_gate \<Rightarrow> pauli \<Rightarrow> pauli_transform option" where
  "transform g p =
     (let P = image_of (clifford_tableau g) (pauli_as_string p)
      in case bits_pauli (ps_x P ! 0) (ps_z P ! 0) of
           None \<Rightarrow> None
         | Some q \<Rightarrow> Some \<lparr>to = q, flip = string_sign P\<rparr>)"

text \<open>Modelled from the spec: \<open>merged_with\<close>, this gate and then the other.\<close>

definition merged_with :: "single_qubit_clifford_gate \<Rightarrow> single_qubit_clifford_gate \<Rightarrow> single_qubit_clifford_gate" where
  "merged_with g second =
     SingleQubitCliffordGate (then_tableau (clifford_tableau g) (clifford_tableau second))"

text \<open>Modelled from the spec: the gate with the given images of X and Z, used for the
  named gates below.\<close>

definition gate_of :: "pauli \<Rightarrow> bool \<Rightarrow> pauli \<Rightarrow> bool \<Rightarrow> single_qubit_clifford_gate" where
  "gate_of px fx pz fz =
     SingleQubitCliffordGate (to_clifford_tableau \<lparr>to = px, flip = fx\<rparr> \<lparr>to = pz, flip = fz\<rparr>)"

text \<open>Modelled from the spec: the named gates \<open>SingleQubitCliffordGate.I\<close>, \<open>H\<close>, \<open>X\<close>, \<open>Y\<close>,
  \<open>Z\<close> and the square-root family. \<open>test_repr\<close> and \<open>test_y_rotation\<close> state their action
  on the axes.\<close>

definition gate_I :: single_qubit_clifford_gate where "gate_I = gate_of X False Z False"

text \<open>Modelled from the spec: see \<open>gate_I\<close>.\<close>

definition gate_H :: single_qubit_clifford_gate where "gate_H = gate_of Z False X False"

text \<open>Modelled from the spec: see \<open>gate_I\<close>.\<close>

definition gate_X :: single_qubit_clifford_gate where "gate_X = gate_of X False Z True"

text \<open>Modelled from the spec: see \<open>gate_I\<close>.\<close>

definition gate_Y :: single_qubit_clifford_gate where "gate_Y = gate_of X True Z True"

text \<open>Modelled from the spec: see \<open>gate_I\<close>.\<close>

definition gate_Z :: single_qubit_clifford_gate where "gate_Z = gate_of X True Z False"

text \<open>Modelled from the spec: see \<open>gate_I\<close>.\<close>

definition gate_X_sqrt :: single_qubit_clifford_gate where "gate_X_sqrt = gate_of X False Y True"

text \<open>Modelled from the spec: see \<open>gate_I\<close>.\<close>

definition gate_X_nsqrt :: single_qubit_clifford_gate where "gate_X_nsqrt = gate_of X False Y False"

text \<open>Modelled from the spec: see \<open>gate_I\<close>.\<close>

definition gate_Y_sqrt :: single_qubit_clifford_gate where "gate_Y_sqrt = gate_of Z True X False"

text \<open>Modelled from the spec: see \<open>gate_I\<close>.\<close>

definition gate_Y_nsqrt :: single_qubit_clifford_gate where "gate_Y_nsqrt = gate_of Z False X True"

text \<open>Modelled from the spec: see \<open>gate_I\<close>.\<close>

definition gate_Z_sqrt :: single_qubit_clifford_gate where "gate_Z_sqrt = gate_of Y False Z False"

text \<open>Modelled from the spec: see \<open>gate_I\<close>.\<close>

definition gate_Z_nsqrt :: single_qubit_clifford_gate where "gate_Z_nsqrt = gate_of Y True Z False"

text \<open>Modelled from the spec: the source axis and sign that a gate sends to the axis
  \<open>p\<close>, that is, the image of \<open>p\<close> under the inverse.\<close>

definition inverse_image :: "single_qubit_clifford_gate \<Rightarrow> pauli \<Rightarrow> pauli_transform option" where
  "inverse_image g p =
     (case find (\<lambda>q. map_option to (transform g q) = Some p) [X, Y, Z] of
        None \<Rightarrow> None
      | Some q \<Rightarrow> map_option (\<lambda>t. \<lparr>to = q, flip = flip t\<rparr>) (transform g q))"

text \<open>Modelled from the spec: the inverse of a gate, the gate \<open>g'\<close> with
  \<open>g.merged_with(g')\<close> the identity; an error when the tableau is not symplectic.\<close>

definition inverse_gate :: "single_qubit_clifford_gate \<Rightarrow> error + single_qubit_clifford_gate" where
  "inverse_gate g =
     (case (inverse_image g X, inverse_image g Z) of
        (Some x_to, Some z_to) \<Rightarrow> from_xz_map x_to z_to
      | _ \<Rightarrow> Inl (ValueError ''The tableau is not symplectic''))"

text \<open>Modelled from the spec: an integer power, by repeated composition and, for a
  negative exponent, inversion.\<close>

definition int_pow :: "single_qubit_clifford_gate \<Rightarrow> int \<Rightarrow> error + single_qubit_clifford_gate" where
  "int_pow g k =
     (let repeated = ((\<lambda>a. merged_with a g) ^^ nat \<bar>k\<bar>) gate_I
      in if 0 \<le> k then Inr repeated else inverse_gate repeated)"

text \<open>Modelled from the spec: \<open>SingleQubitCliffordGate.__pow__\<close>. The exponents 0.5 and
  -0.5 on the Pauli gates give the dedicated square-root family (\<open>test_pow\<close>: \<open>X ** 0.5\<close> is
  \<open>X_sqrt\<close>, \<open>X ** -0.5\<close> is \<open>X_nsqrt\<close>, and so for Y and Z); an integer exponent is repeated
  composition or inversion; any other exponent is a type error (\<open>Z ** 0.25\<close>).\<close>

definition pow :: "single_qubit_clifford_gate \<Rightarrow> rat \<Rightarrow> error + single_qubit_clifford_gate" where
  "pow g exponent =
     (if exponent = 1/2 \<and> g = gate_X then Inr gate_X_sqrt
      else if exponent = 1/2 \<and> g = gate_Y then Inr gate_Y_sqrt
      else if exponent = 1/2 \<and> g = gate_Z then Inr gate_Z_sqrt
      else if exponent = - (1/2) \<and> g = gate_X then Inr gate_X_nsqrt
      else if exponent = - (1/2) \<and> g = gate_Y then Inr gate_Y_nsqrt
      else if exponent = - (1/2) \<and> g = gate_Z then Inr gate_Z_nsqrt
      else if of_int \<lfloor>exponent\<rfloor> = exponent then int_pow g \<lfloor>exponent\<rfloor>
      else Inl (TypeError ''unsupported operand type(s) for **''))"

section \<open>The enumerations and checks of the test module\<close>

definition paulis :: "pauli list" where
  "paulis = [X, Y, Z]"

definition bools :: "bool list" where
  "bools = [False, True]"

definition all_rotation_pairs :: "(pauli_transform \<times> pauli_transform) list" where
  "all_rotation_pairs =
     [(\<lparr>to = px, flip = flip_x\<rparr>, \<lparr>to = pz, flip = flip_z\<rparr>).
        px \<leftarrow> paulis, flip_x \<leftarrow> bools, pz \<leftarrow> paulis, flip_z \<leftarrow> bools, px \<noteq> pz]"

text \<open>\<open>_all_clifford_gates\<close>, with the gate that \<open>from_xz_map\<close> builds from each pair.\<close>

definition all_clifford_gates :: "single_qubit_clifford_gate list" where
  "all_clifford_gates =
     map (\<lambda>(trans_x, trans_z). SingleQubitCliffordGate (to_clifford_tableau trans_x trans_z))
       all_rotation_pairs"

text \<open>Modelled from the spec: the position of an axis in the cycle X, Y, Z.\<close>

fun pauli_index :: "pauli \<Rightarrow> int" where
  "pauli_index X = 0"
| "pauli_index Y = 1"
| "pauli_index Z = 2"

text \<open>Modelled from the spec: \<open>Pauli.relative_index\<close>, the position of an axis relative to
  a second one in the cycle X, Y, Z: 0 for the same axis, 1 for the next one after
  \<open>second\<close>, -1 for the one before.\<close>

definition relative_index :: "pauli \<Rightarrow> pauli \<Rightarrow> int" where
  "relative_index p second = (pauli_index p - pauli_index second + 1) mod 3 - 1"

text \<open>\<open>_assert_not_mirror\<close>: the condition that the test asserts (\<open>^\<close> is exclusive or).\<close>

definition assert_not_mirror :: "single_qubit_clifford_gate \<Rightarrow> bool" where
  "assert_not_mirror gate =
     (case (transform gate X, transform gate Y, transform gate Z) of
        (Some trans_x, Some trans_y, Some trans_z) \<Rightarrow>
          (((flip trans_x \<noteq> flip trans_y) \<noteq> flip trans_z)
             \<noteq> (relative_index (to trans_x) (to trans_y) \<noteq> 1))
      | _ \<Rightarrow> False)"

text \<open>\<open>_assert_no_collision\<close>.\<close>

definition assert_no_collision :: "single_qubit_clifford_gate \<Rightarrow> bool" where
  "assert_no_collision gate =
     (case (transform gate X, transform gate Y, transform gate Z) of
        (Some trans_x, Some trans_y, Some trans_z) \<Rightarrow>
          to trans_x \<noteq> to trans_y \<and> to trans_y \<noteq> to trans_z \<and> to trans_z \<noteq> to trans_x
      | _ \<Rightarrow> False)"

text \<open>The number that \<open>test_from_xz_to_clifford_tableau\<close> computes from a one-qubit
  tableau: the bits of the raveled matrix as a binary numeral, then the two sign bits.\<close>

definition tableau_number :: "clifford_tableau \<Rightarrow> nat" where
  "tableau_number T =
     (\<Sum>(i, t) \<leftarrow> enumerate 0 (concat (matrix T)). 2 ^ i * (if t then 1 else 0)) * 4
       + 2 * (if rs T ! 0 then 1 else 0) + (if rs T ! 1 then 1 else 0)"

text \<open>\<open>seen_tableau\<close> at the end of the loop of that test; a pair that \<open>from_xz_map\<close>
  rejects would end the test with the error.\<close>

definition seen_tableau :: "(error + nat) list" where
  "seen_tableau =
     map (\<lambda>(trans_x, trans_z).
            case from_xz_map trans_x trans_z of
              Inl e \<Rightarrow> Inl e
            | Inr g \<Rightarrow> Inr (tableau_number (clifford_tableau g)))
       all_rotation_pairs"

text \<open>The assertion inside the loop of that test,
  \<open>sum(matrix[0, :2] * matrix[1, 1::-1]) % 2 == 1\<close>.\<close>

definition symplectic_assertion :: "clifford_tableau \<Rightarrow> bool" where
  "symplectic_assertion T =
     ((\<Sum>(a, b) \<leftarrow> zip (take 2 (matrix T ! 0)) (rev (take 2 (matrix T ! 1))).
          (if a \<and> b then 1 else (0::nat))) mod 2 = 1)"

text \<open>Modelled from the spec: a right-handed (positively oriented) signed relabelling of
  the axes: an even permutation with an even number of sign flips, or an odd permutation
  with an odd number.\<close>

definition right_handed :: "pauli_transform \<Rightarrow> pauli_transform \<Rightarrow> pauli_transform \<Rightarrow> bool" where
  "right_handed tx ty tz =
     (((to tx, to ty, to tz) \<in> {(X, Y, Z), (Y, Z, X), (Z, X, Y)})
        = (((flip tx \<noteq> flip ty) \<noteq> flip tz) = False))"

section \<open>Multi-qubit Clifford gates on a tableau-backed simulation state\<close>

text \<open>Modelled from the spec: the position of a qubit in the qubit list of the
  simulation state (its axis); \<open>None\<close> when it is not there.\<close>

fun position :: "'a list \<Rightarrow> 'a \<Rightarrow> nat option" where
  "position [] a = None"
| "position (b # bs) a = (if a = b then Some 0 else map_option Suc (position bs a))"

text \<open>Modelled from the spec: \<open>get_axes\<close>, the axes of the qubits acted on; a qubit
  that the state does not have is a key error.\<close>

fun axes_of :: "'q list \<Rightarrow> 'q list \<Rightarrow> error + nat list" where
  "axes_of all_qubits [] = Inr []"
| "axes_of all_qubits (q # qs) =
     (case position all_qubits q of
        None \<Rightarrow> Inl (KeyError ''qubit'')
      | Some a \<Rightarrow> (case axes_of all_qubits qs of Inl e \<Rightarrow> Inl e | Inr as \<Rightarrow> Inr (a # as)))"

text \<open>Modelled from the spec: a row of the smaller tableau spread over the columns of
  the larger one: column \<open>axes[j]\<close> takes bit \<open>j\<close>, the other columns are empty.\<close>

definition pad_row :: "nat \<Rightarrow> nat list \<Rightarrow> bool list \<Rightarrow> bool list" where
  "pad_row m axes row =
     map (\<lambda>c. case position axes c of None \<Rightarrow> False | Some j \<Rightarrow> row ! j) [0..<m]"

text \<open>Modelled from the spec: \<open>_pad_tableau(tableau, num_qubits_after_padding, axes)\<close>
  embeds a tableau into a larger qubit space at the given axes and leaves the other
  qubits as identity; it fails when the number of axes does not match the qubit count of
  the tableau, or when the target is smaller than the source (the two messages are those
  that \<open>test_pad_tableau_bad_input\<close> expects).\<close>

definition pad_tableau :: "clifford_tableau \<Rightarrow> nat \<Rightarrow> nat list \<Rightarrow> error + clifford_tableau" where
  "pad_tableau T m axes =
     (let k = num_qubits T in
      if length (remdups axes) \<noteq> k
      then Inl (ValueError ''Input axes of padding should match with the number of qubits in the input tableau.'')
      else if m < k
      then Inl (ValueError ''The number of qubits in the input tableau should not be larger than num_qubits_after_padding.'')
      else Inr
        \<lparr>num_qubits = m,
         xs = map (\<lambda>q. case position axes q of
                          None \<Rightarrow> unit_bits m q
                        | Some i \<Rightarrow> pad_row m axes (xs T ! i)) [0..<m]
              @ map (\<lambda>q. case position axes q of
                          None \<Rightarrow> replicate m False
                        | Some i \<Rightarrow> pad_row m axes (xs T ! (k + i))) [0..<m],
         zs = map (\<lambda>q. case position axes q of
                          None \<Rightarrow> replicate m False
                        | Some i \<Rightarrow> pad_row m axes (zs T ! i)) [0..<m]
              @ map (\<lambda>q. case position axes q of
                          None \<Rightarrow> unit_bits m q
                        | Some i \<Rightarrow> pad_row m axes (zs T ! (k + i))) [0..<m],
         rs = map (\<lambda>q. case position axes q of
                          None \<Rightarrow> False
                        | Some i \<Rightarrow> rs T ! i) [0..<m]
              @ map (\<lambda>q. case position axes q of
                          None \<Rightarrow> False
                        | Some i \<Rightarrow> rs T ! (k + i)) [0..<m]\<rparr>)"

text \<open>Modelled from the spec: an operation, a gate on qubits; \<open>op_tableau\<close> is the tableau
  of its stabilizer effect, \<open>None\<close> when it has none.\<close>

record 'q operation =
  op_tableau :: "clifford_tableau option"
  op_qubits :: "'q list"

text \<open>Modelled from the spec: \<open>ActOnCliffordTableauArgs\<close>, the tableau-backed simulation
  state.\<close>

record 'q act_on_clifford_tableau_args =
  tableau :: clifford_tableau
  ct_qubits :: "'q list"

text \<open>Modelled from the spec: the action of a Clifford gate on a tableau-backed state:
  its padded tableau is composed into the tableau of the state at the positions of the
  qubits.\<close>

definition act_on_tableau ::
  "clifford_tableau \<Rightarrow> 'q act_on_clifford_tableau_args \<Rightarrow> 'q list
     \<Rightarrow> error + 'q act_on_clifford_tableau_args" where
  "act_on_tableau G args qs =
     (case axes_of (ct_qubits args) qs of
        Inl e \<Rightarrow> Inl e
      | Inr axes \<Rightarrow>
          (case pad_tableau G (length (ct_qubits args)) axes of
             Inl e \<Rightarrow> Inl e
           | Inr padded \<Rightarrow> Inr (args\<lparr>tableau := then_tableau (tableau args) padded\<rparr>)))"

text \<open>Modelled from the spec: \<open>act_on\<close> of one operation on a tableau-backed state; an
  operation without a stabilizer effect cannot act.\<close>

definition act_on_operation ::
  "'q operation \<Rightarrow> 'q act_on_clifford_tableau_args \<Rightarrow> error + 'q act_on_clifford_tableau_args" where
  "act_on_operation op args =
     (case op_tableau op of
        None \<Rightarrow> Inl (TypeError ''Failed to act'')
      | Some G \<Rightarrow> act_on_tableau G args (op_qubits op))"

text \<open>Modelled from the spec: the operations applied one by one, in the order given.\<close>

fun act_on_each ::
  "'q operation list \<Rightarrow> 'q act_on_clifford_tableau_args \<Rightarrow> error + 'q act_on_clifford_tableau_args" where
  "act_on_each [] args = Inr args"
| "act_on_each (op # ops) args =
     (case act_on_operation op args of Inl e \<Rightarrow> Inl e | Inr args' \<Rightarrow> act_on_each ops args')"

text \<open>Modelled from the spec: \<open>CliffordTableau(num_qubits=n)\<close> in a new simulation state
  on the given qubits.\<close>

definition fresh_args :: "'q list \<Rightarrow> 'q act_on_clifford_tableau_args" where
  "fresh_args all_qubits =
     \<lparr>tableau = identity_tableau (length all_qubits), ct_qubits = all_qubits\<rparr>"

text \<open>Modelled from the spec: \<open>CliffordGate\<close>, backed by a tableau and equal to another
  gate when the tableaux are equal.\<close>

datatype clifford_gate = CliffordGate (gate_tableau: clifford_tableau)

text \<open>Modelled from the spec: \<open>CliffordGate.from_op_list(operations, qubits)\<close> starts from
  the identity and composes in, for each operation in sequence, its tableau padded to the
  positions of its qubits; an operation without a stabilizer effect is an error.\<close>

definition from_op_list :: "'q operation list \<Rightarrow> 'q list \<Rightarrow> error + clifford_gate" where
  "from_op_list operations all_qubits =
     (if \<exists>op \<in> set operations. op_tableau op = None
      then Inl (ValueError ''Clifford Gate can only be constructed from the operations that has stabilizer effect.'')
      else case act_on_each operations (fresh_args all_qubits) of
             Inl e \<Rightarrow> Inl e
           | Inr args \<Rightarrow> Inr (CliffordGate (tableau args)))"

text \<open>Modelled from the spec: \<open>act_on(gate, args, qubits)\<close> for a \<open>CliffordGate\<close>.\<close>

definition act_on_clifford_gate ::
  "clifford_gate \<Rightarrow> 'q act_on_clifford_tableau_args \<Rightarrow> 'q list
     \<Rightarrow> error + 'q act_on_clifford_tableau_args" where
  "act_on_clifford_gate gate args qs = act_on_tableau (gate_tableau gate) args qs"

text \<open>Modelled from the spec: the tableaux of H, CZ and CNOT (control first), by the images
  of the X and then the Z of each qubit.\<close>

definition tableau_H :: clifford_tableau where
  "tableau_H = \<lparr>num_qubits = 1, xs = [[False], [True]], zs = [[True], [False]],
                rs = [False, False]\<rparr>"

text \<open>Modelled from the spec: see \<open>tableau_H\<close>.\<close>

definition tableau_CZ :: clifford_tableau where
  "tableau_CZ =
     \<lparr>num_qubits = 2,
      xs = [[True, False], [False, True], [False, False], [False, False]],
      zs = [[False, True], [True, False], [True, False], [False, True]],
      rs = [False, False, False, False]\<rparr>"

text \<open>Modelled from the spec: see \<open>tableau_H\<close>.\<close>

definition tableau_CNOT :: clifford_tableau where
  "tableau_CNOT =
     \<lparr>num_qubits = 2,
      xs = [[True, True], [False, True], [False, False], [False, False]],
      zs = [[False, False], [False, False], [True, False], [True, True]],
      rs = [False, False, False, False]\<rparr>"

text \<open>Modelled from the spec: a tableau with all its rows and columns in place.\<close>

definition well_formed :: "clifford_tableau \<Rightarrow> bool" where
  "well_formed T \<longleftrightarrow>
     length (xs T) = 2 * num_qubits T \<and> length (zs T) = 2 * num_qubits T
     \<and> length (rs T) = 2 * num_qubits T
     \<and> list_all (\<lambda>row. length row = num_qubits T) (xs T)
     \<and> list_all (\<lambda>row. length row = num_qubits T) (zs T)"

text \<open>Modelled from the spec: an operation that can act on a state with the given
  qubits: it has a stabilizer effect, and it acts on as many distinct qubits of the state
  as its tableau has.\<close>

definition acts_on :: "'q list \<Rightarrow> 'q operation \<Rightarrow> bool" where
  "acts_on all_qubits op \<longleftrightarrow>
     (case op_tableau op of
        None \<Rightarrow> False
      | Some G \<Rightarrow> distinct (op_qubits op) \<and> list_all (\<lambda>q. q \<in> set all_qubits) (op_qubits op)
                  \<and> length (op_qubits op) = num_qubits G)"

text \<open>Modelled from the spec: H on a qubit and CZ on two qubits as operations.\<close>

definition opH :: "nat \<Rightarrow> nat operation" where
  "opH q = \<lparr>op_tableau = Some tableau_H, op_qubits = [q]\<rparr>"

text \<open>Modelled from the spec: see \<open>opH\<close>.\<close>

definition opCZ :: "nat \<Rightarrow> nat \<Rightarrow> nat operation" where
  "opCZ a b = \<lparr>op_tableau = Some tableau_CZ, op_qubits = [a, b]\<rparr>"

section \<open>Channel application: the sampling loop\<close>

lemma linalg_norm_sq: "(linalg_norm a)\<^sup>2 = (\<Sum>z\<leftarrow>data a. (cmod z)\<^sup>2)"
  unfolding linalg_norm_def
  by (rule real_sqrt_pow2) (rule sum_list_nonneg, auto)

lemma kraus_weight_nonneg: "0 \<le> kraus_weight ext kts S axes k"
  by (simp add: kraus_weight_def)

lemma channel_body_fields:
  assumes "state_vector self \<noteq> buffer self"
    and "cells (cv_store v) (state_vector self) = S"
  shows "cells (cv_store (channel_body ext kts axes self i v)) (state_vector self) = S"
    and "cells (cv_store (channel_body ext kts axes self i v)) (buffer self) = kraus_image ext kts S axes i"
    and "cv_weight (channel_body ext kts axes self i v) = Some (kraus_weight ext kts S axes i)"
    and "cv_index (channel_body ext kts axes self i v) = Some i"
    and "cv_p (channel_body ext kts axes self i v) = cv_p v - kraus_weight ext kts S axes i"
    and "(cv_fallback_weight (channel_body ext kts axes self i v),
          cv_fallback_weight_index (channel_body ext kts axes self i v))
         = fallback_step (kraus_weight ext kts S axes)
             (cv_fallback_weight v, cv_fallback_weight_index v) i"
  using assms
  by (simp_all add: channel_body_def prepare_into_buffer_def store_write_def Let_def
       fallback_step_def kraus_weight_def kraus_image_def)

lemma channel_loop_stop:
  "cv_p (channel_body ext kts axes self i v) < 0 \<or> rest = []
   \<Longrightarrow> channel_loop ext kts axes self (i # rest) v = channel_body ext kts axes self i v"
  by (auto simp: Let_def)

lemma channel_loop_go:
  "\<not> cv_p (channel_body ext kts axes self i v) < 0
   \<Longrightarrow> channel_loop ext kts axes self (i # rest) v
       = channel_loop ext kts axes self rest (channel_body ext kts axes self i v)"
  by (simp add: Let_def)

declare channel_loop.simps(2) [simp del]

lemma channel_loop_char:
  assumes "state_vector self \<noteq> buffer self"
    and "cells (cv_store v) (state_vector self) = S"
    and "idxs \<noteq> []"
  shows "\<exists>js i rest. idxs = js @ i # rest
           \<and> (rest = [] \<or> cv_p v - sum_list (map (kraus_weight ext kts S axes) (js @ [i])) < 0)
           \<and> (\<forall>m < length js. 0 \<le> cv_p v - sum_list (map (kraus_weight ext kts S axes) (take (Suc m) js)))
           \<and> cv_index (channel_loop ext kts axes self idxs v) = Some i
           \<and> cv_weight (channel_loop ext kts axes self idxs v) = Some (kraus_weight ext kts S axes i)
           \<and> cv_p (channel_loop ext kts axes self idxs v)
               = cv_p v - sum_list (map (kraus_weight ext kts S axes) (js @ [i]))
           \<and> cells (cv_store (channel_loop ext kts axes self idxs v)) (buffer self) = kraus_image ext kts S axes i
           \<and> cells (cv_store (channel_loop ext kts axes self idxs v)) (state_vector self) = S
           \<and> (cv_fallback_weight (channel_loop ext kts axes self idxs v),
               cv_fallback_weight_index (channel_loop ext kts axes self idxs v))
              = foldl (fallback_step (kraus_weight ext kts S axes))
                  (cv_fallback_weight v, cv_fallback_weight_index v) (js @ [i])"
  using assms(2,3)
proof (induction idxs arbitrary: v)
  case Nil
  then show ?case by simp
next
  case (Cons i rest)
  let ?v' = "channel_body ext kts axes self i v"
  let ?w = "kraus_weight ext kts S axes"
  note bf = channel_body_fields[OF assms(1) Cons.prems(1), of ext kts axes i]
  show ?case
  proof (cases "cv_p ?v' < 0 \<or> rest = []")
    case True
    then have eq: "channel_loop ext kts axes self (i # rest) v = ?v'"
      by (rule channel_loop_stop)
    show ?thesis
      apply (rule exI[of _ "[]"], rule exI[of _ i], rule exI[of _ rest])
      unfolding eq
      using True bf by auto
  next
    case False
    then have eq: "channel_loop ext kts axes self (i # rest) v = channel_loop ext kts axes self rest ?v'"
      by (simp add: channel_loop_go)
    from False have ne: "rest \<noteq> []" and nn: "0 \<le> cv_p v - ?w i" using bf(5) by auto
    from Cons.IH[OF bf(1) ne] obtain js i' rest' where
      r: "rest = js @ i' # rest'"
      and c: "rest' = [] \<or> cv_p ?v' - sum_list (map ?w (js @ [i'])) < 0"
      and a: "\<forall>m < length js. 0 \<le> cv_p ?v' - sum_list (map ?w (take (Suc m) js))"
      and f: "cv_index (channel_loop ext kts axes self rest ?v') = Some i'"
        "cv_weight (channel_loop ext kts axes self rest ?v') = Some (?w i')"
        "cv_p (channel_loop ext kts axes self rest ?v') = cv_p ?v' - sum_list (map ?w (js @ [i']))"
        "cells (cv_store (channel_loop ext kts axes self rest ?v')) (buffer self) = kraus_image ext kts S axes i'"
        "cells (cv_store (channel_loop ext kts axes self rest ?v')) (state_vector self) = S"
        "(cv_fallback_weight (channel_loop ext kts axes self rest ?v'),
               cv_fallback_weight_index (channel_loop ext kts axes self rest ?v'))
              = foldl (fallback_step ?w)
                  (cv_fallback_weight ?v', cv_fallback_weight_index ?v') (js @ [i'])"
      by blast
    have a': "\<forall>m < length (i # js). 0 \<le> cv_p v - sum_list (map ?w (take (Suc m) (i # js)))"
    proof (intro allI impI)
      fix m assume m: "m < length (i # js)"
      show "0 \<le> cv_p v - sum_list (map ?w (take (Suc m) (i # js)))"
      proof (cases m)
        case 0
        then show ?thesis using nn by simp
      next
        case (Suc m')
        with m have "m' < length js" by simp
        with a have "0 \<le> cv_p ?v' - sum_list (map ?w (take (Suc m') js))" by blast
        then show ?thesis using Suc bf(5) by simp
      qed
    qed
    show ?thesis
      apply (rule exI[of _ "i # js"], rule exI[of _ i'], rule exI[of _ rest'])
      unfolding eq
      using r c a' f bf(5) bf(6) by (simp add: algebra_simps)
  qed
qed

lemma upt_split_index:
  assumes "[0..<n] = js @ i # rest"
  shows "i = length js" and "js = [0..<i]" and "i < n" and "rest = [] \<longleftrightarrow> Suc i = n"
proof -
  have len: "n = length js + Suc (length rest)"
    using arg_cong[OF assms, of length] by simp
  have "[0..<n] ! length js = i" using assms by simp
  moreover have "[0..<n] ! length js = 0 + length js"
    by (rule nth_upt) (simp add: len)
  ultimately show i: "i = length js" by simp
  show "i < n" using i len by simp
  have "take (length js) [0..<n] = js" using assms by simp
  then show "js = [0..<i]" using i len by (simp add: take_upt)
  show "rest = [] \<longleftrightarrow> Suc i = n" using i len by auto
qed

lemma fallback_fold_inv:
  assumes nonneg: "\<And>k. 0 \<le> w k"
  shows "foldl (fallback_step w) (0, 0) [0..<Suc k] = (M, m)
         \<Longrightarrow> m \<le> k \<and> w m = M \<and> (\<forall>j\<le>k. w j \<le> M) \<and> (\<forall>j<m. w j < M)"
proof (induction k arbitrary: M m)
  case 0
  then show ?case using nonneg[of 0]
    by (auto simp: fallback_step_def split: if_splits)
next
  case (Suc k)
  obtain M0 m0 where f0: "foldl (fallback_step w) (0, 0) [0..<Suc k] = (M0, m0)"
    by (cases "foldl (fallback_step w) (0, 0) [0..<Suc k]") auto
  from Suc.IH[OF f0] have ih: "m0 \<le> k" "w m0 = M0" "\<forall>j\<le>k. w j \<le> M0" "\<forall>j<m0. w j < M0"
    by auto
  have step: "(M, m) = fallback_step w (M0, m0) (Suc k)"
    using Suc.prems f0 by simp
  show ?case
  proof (cases "w (Suc k) > M0")
    case True
    with step have "M = w (Suc k)" "m = Suc k" by (auto simp: fallback_step_def)
    with ih True show ?thesis
      by (auto simp: le_Suc_eq less_Suc_eq_le intro: less_imp_le order_trans le_less_trans)
  next
    case False
    with step have "M = M0" "m = m0" by (auto simp: fallback_step_def)
    with ih False show ?thesis by (auto simp: le_Suc_eq)
  qed
qed

lemma swap_buffer_in:
  "swap_target_tensor_for self (buffer self)
     = \<lparr>state_vector = buffer self, buffer = state_vector self\<rparr>"
  by (cases self) (simp add: swap_target_tensor_for_def)

lemma sum_list_upt_atMost: "sum_list (map w [0..<Suc j]) = (\<Sum>k\<le>j. w k)"
proof -
  have "sum_list (map w [0..<Suc j]) = sum w (set [0..<Suc j])"
    by (rule interv_sum_list_conv_sum_set_nat)
  also have "set [0..<Suc j] = {..j}" by auto
  finally show ?thesis .
qed

lemma apply_channel_char:
  assumes k: "kraus act = Some ks" and ne: "ks \<noteq> []"
    and na: "state_vector self \<noteq> buffer self"
    and r: "prng_random ext g = (p, g')"
  shows "\<exists>i idx h'.
      i < length ks
    \<and> (\<forall>j<i. 0 \<le> p - (\<Sum>k\<le>j. kraus_weight ext (kraus_tensors_of act ks) (cells h (state_vector self)) axes k))
    \<and> (Suc i = length ks \<or> p - (\<Sum>k\<le>i. kraus_weight ext (kraus_tensors_of act ks) (cells h (state_vector self)) axes k) < 0)
    \<and> apply_channel ext act axes g h self
        = Inr (Some idx, g', h', \<lparr>state_vector = buffer self, buffer = state_vector self\<rparr>)
    \<and> idx = (if 0 \<le> p - (\<Sum>k\<le>i. kraus_weight ext (kraus_tensors_of act ks) (cells h (state_vector self)) axes k)
                \<or> kraus_weight ext (kraus_tensors_of act ks) (cells h (state_vector self)) axes i = 0
             then snd (foldl (fallback_step (kraus_weight ext (kraus_tensors_of act ks) (cells h (state_vector self)) axes)) (0, 0) [0..<Suc i])
             else i)
    \<and> cells h' (buffer self)
        = divide_inplace ext (kraus_image ext (kraus_tensors_of act ks) (cells h (state_vector self)) axes idx)
            (sqrt (kraus_weight ext (kraus_tensors_of act ks) (cells h (state_vector self)) axes idx))
    \<and> cells h' (state_vector self) = cells h (state_vector self)"
proof -
  let ?kts = "map (\<lambda>e. reshape e (qid_shape act @ qid_shape act)) ks"
  let ?S = "cells h (state_vector self)"
  let ?w = "kraus_weight ext ?kts ?S axes"
  let ?ini = "\<lparr>cv_store = h, cv_p = p, cv_weight = None, cv_fallback_weight = 0,
              cv_fallback_weight_index = 0, cv_index = None\<rparr>"
  let ?v = "channel_loop ext ?kts axes self [0..<length ks] ?ini"
  have len: "length ?kts = length ks" by simp
  have ne': "[0..<length ks] \<noteq> []" using ne by simp
  have s0: "cells (cv_store ?ini) (state_vector self) = ?S" by simp
  from channel_loop_char[OF na s0 ne', of ext ?kts axes]
  obtain js i rest where
    sp: "[0..<length ks] = js @ i # rest"
    and c: "rest = [] \<or> cv_p ?ini - sum_list (map ?w (js @ [i])) < 0"
    and a: "\<forall>m < length js. 0 \<le> cv_p ?ini - sum_list (map ?w (take (Suc m) js))"
    and f: "cv_index ?v = Some i" "cv_weight ?v = Some (?w i)"
      "cv_p ?v = cv_p ?ini - sum_list (map ?w (js @ [i]))"
      "cells (cv_store ?v) (buffer self) = kraus_image ext ?kts ?S axes i"
      "cells (cv_store ?v) (state_vector self) = ?S"
      "(cv_fallback_weight ?v, cv_fallback_weight_index ?v)
        = foldl (fallback_step ?w) (cv_fallback_weight ?ini, cv_fallback_weight_index ?ini) (js @ [i])"
    by blast
  note u = upt_split_index[OF sp]
  have jsi: "js @ [i] = [0..<Suc i]" using u(2) by simp
  have il: "i < length ks" using u(3) len by simp
  have sumi: "sum_list (map ?w (js @ [i])) = (\<Sum>k\<le>i. ?w k)"
    unfolding jsi by (rule sum_list_upt_atMost)
  have a': "\<forall>j<i. 0 \<le> p - (\<Sum>k\<le>j. ?w k)"
  proof (intro allI impI)
    fix j assume j: "j < i"
    then have "j < length js" using u(1) by simp
    with a have "0 \<le> cv_p ?ini - sum_list (map ?w (take (Suc j) js))" by blast
    moreover have "take (Suc j) js = [0..<Suc j]" using j u(2) by (simp add: take_upt)
    ultimately show "0 \<le> p - (\<Sum>k\<le>j. ?w k)" by (simp add: sum_list_upt_atMost del: upt_Suc)
  qed
  have c': "Suc i = length ks \<or> p - (\<Sum>k\<le>i. ?w k) < 0"
    using c u(4) len sumi by auto
  obtain M m where fm: "foldl (fallback_step ?w) (0, 0) [0..<Suc i] = (M, m)"
    by (cases "foldl (fallback_step ?w) (0, 0) [0..<Suc i]") auto
  have inv: "m \<le> i" "?w m = M"
    using fallback_fold_inv[of ?w i M m, OF kraus_weight_nonneg fm] by auto
  have fw: "cv_fallback_weight ?v = M" "cv_fallback_weight_index ?v = m"
    using f(6) fm unfolding jsi by simp_all
  have pv: "cv_p ?v = p - (\<Sum>k\<le>i. ?w k)" using f(3) sumi by simp
  let ?fb = "0 \<le> p - (\<Sum>k\<le>i. ?w k) \<or> ?w i = 0"
  let ?idx = "if ?fb then m else i"
  let ?h1 = "if ?fb then prepare_into_buffer ext ?kts axes self m (cv_store ?v) else cv_store ?v"
  let ?wt = "if ?fb then M else ?w i"
  let ?h2 = "store_write ?h1 (buffer self) (divide_inplace ext (cells ?h1 (buffer self)) (sqrt ?wt))"
  have ac: "apply_channel ext act axes g h self
             = Inr (Some ?idx, g', ?h2, swap_target_tensor_for self (buffer self))"
    using k r f(1,2) fw pv
    by (simp add: apply_channel_def Let_def split_def del: upt_Suc)
  have h1b: "cells ?h1 (buffer self) = kraus_image ext ?kts ?S axes ?idx"
    using f(4,5) by (simp add: prepare_into_buffer_def store_write_def kraus_image_def)
  have wt: "?wt = ?w ?idx" using inv by simp
  have h1s: "cells ?h1 (state_vector self) = ?S"
    using f(5) na by (simp add: prepare_into_buffer_def store_write_def)
  have h2b: "cells ?h2 (buffer self)
        = divide_inplace ext (kraus_image ext ?kts ?S axes ?idx) (sqrt (?w ?idx))"
    using h1b wt by (simp add: store_write_def)
  have h2s: "cells ?h2 (state_vector self) = ?S"
    using h1s na by (simp add: store_write_def)
  show ?thesis
    apply (rule exI[of _ i], rule exI[of _ ?idx], rule exI[of _ ?h2])
    using il a' c' ac h2b h2s fm by (simp add: swap_buffer_in kraus_tensors_of_def del: upt_Suc)
qed

lemma linalg_norm_sq_re_im: "(linalg_norm a)\<^sup>2 = (\<Sum>z\<leftarrow>data a. (Re z)\<^sup>2 + (Im z)\<^sup>2)"
  by (simp add: linalg_norm_sq cmod_power2)

lemma upt_2: "[0..<2] = [0, 1]"
  by (simp add: upt_rec numeral_2_eq_2)

lemma ex_weights: "channel_weights ex_ext ex_channel [0] ex_store ex_self = [3/10, 7/10]"
  by (simp add: channel_weights_def ex_ext_def ex_channel_def ex_kraus_def ex_store_def ex_self_def
        linalg_norm_sq_re_im full_left_multiply_def reshape_def upt_2 power_divide)

lemma channel_body_sets:
  "cv_weight (channel_body ext kts axes self i v) \<noteq> None
   \<and> cv_index (channel_body ext kts axes self i v) \<noteq> None"
  by (simp add: channel_body_def Let_def)

lemma channel_loop_keeps:
  "cv_weight v \<noteq> None \<and> cv_index v \<noteq> None
   \<Longrightarrow> cv_weight (channel_loop ext kts axes self idxs v) \<noteq> None
       \<and> cv_index (channel_loop ext kts axes self idxs v) \<noteq> None"
proof (induction idxs arbitrary: v)
  case Nil
  then show ?case by simp
next
  case (Cons i rest)
  show ?case
  proof (cases "cv_p (channel_body ext kts axes self i v) < 0")
    case True
    then show ?thesis using channel_body_sets[of ext kts axes self i v]
      by (simp add: channel_loop_stop)
  next
    case False
    then show ?thesis
      using Cons.IH[OF channel_body_sets[of ext kts axes self i v]]
      by (simp add: channel_loop_go)
  qed
qed

lemma channel_loop_nonempty:
  assumes "idxs \<noteq> []"
  shows "cv_weight (channel_loop ext kts axes self idxs v) \<noteq> None
       \<and> cv_index (channel_loop ext kts axes self idxs v) \<noteq> None"
proof -
  obtain i rest where e: "idxs = i # rest" using assms by (cases idxs) auto
  show ?thesis
  proof (cases "cv_p (channel_body ext kts axes self i v) < 0")
    case True
    then show ?thesis unfolding e using channel_body_sets[of ext kts axes self i v]
      by (simp add: channel_loop_stop)
  next
    case False
    then show ?thesis unfolding e
      using channel_loop_keeps[OF channel_body_sets[of ext kts axes self i v]]
      by (simp add: channel_loop_go)
  qed
qed

lemma apply_channel_no_kraus:
  "kraus act = None \<Longrightarrow> apply_channel ext act axes g h self = Inr (None, g, h, self)"
  by (simp add: apply_channel_def)

lemma apply_channel_empty:
  "kraus act = Some [] \<Longrightarrow> apply_channel ext act axes g h self = Inl (AssertionError ''No Kraus operators'')"
  by (simp add: apply_channel_def split_def)

lemma apply_channel_nonempty:
  assumes "kraus act = Some ks" and "ks \<noteq> []"
  shows "\<exists>idx g' h' self'. apply_channel ext act axes g h self = Inr (Some idx, g', h', self')"
proof -
  let ?kts = "map (\<lambda>e. reshape e (qid_shape act @ qid_shape act)) ks"
  let ?ini = "\<lparr>cv_store = h, cv_p = fst (prng_random ext g), cv_weight = None, cv_fallback_weight = 0,
              cv_fallback_weight_index = 0, cv_index = None\<rparr>"
  let ?v = "channel_loop ext ?kts axes self [0..<length ks] ?ini"
  have "[0..<length ks] \<noteq> []" using assms by simp
  from channel_loop_nonempty[OF this, of ext ?kts axes self ?ini]
  obtain w i where "cv_weight ?v = Some w" "cv_index ?v = Some i" by auto
  then show ?thesis using assms(1)
    by (simp add: apply_channel_def Let_def split_def)
qed

text \<open>
  C9. An action whose Kraus decomposition is the empty sequence makes \<open>apply_channel\<close> fail
  the assertion "No Kraus operators"; the \<open>None\<close> result is returned exactly when the action
  exposes no Kraus decomposition at all; and when the exposed list is non-empty the call
  raises nothing, so the assertion branch is not reached.
\<close>

theorem apply_channel_assertion:
  "(kraus act = Some [] \<longrightarrow>
      apply_channel ext act axes g h self = Inl (AssertionError ''No Kraus operators''))
   \<and> ((\<exists>g' h' self'. apply_channel ext act axes g h self = Inr (None, g', h', self'))
        \<longleftrightarrow> kraus act = None)
   \<and> (\<forall>ks. kraus act = Some ks \<and> ks \<noteq> [] \<longrightarrow>
        (\<forall>e. apply_channel ext act axes g h self \<noteq> Inl e))"
proof (intro conjI)
  show "kraus act = Some [] \<longrightarrow>
      apply_channel ext act axes g h self = Inl (AssertionError ''No Kraus operators'')"
    by (simp add: apply_channel_empty)
  show "(\<exists>g' h' self'. apply_channel ext act axes g h self = Inr (None, g', h', self'))
        \<longleftrightarrow> kraus act = None"
  proof
    assume r: "\<exists>g' h' self'. apply_channel ext act axes g h self = Inr (None, g', h', self')"
    show "kraus act = None"
    proof (cases "kraus act")
      case None
      then show ?thesis .
    next
      case (Some ks)
      show ?thesis
      proof (cases "ks = []")
        case True
        with Some r show ?thesis by (auto simp: apply_channel_empty)
      next
        case False
        from apply_channel_nonempty[OF Some False, of ext axes g h self] r
        show ?thesis by auto
      qed
    qed
  next
    assume "kraus act = None"
    then show "\<exists>g' h' self'. apply_channel ext act axes g h self = Inr (None, g', h', self')"
      by (simp add: apply_channel_no_kraus)
  qed
  show "\<forall>ks. kraus act = Some ks \<and> ks \<noteq> [] \<longrightarrow>
        (\<forall>e. apply_channel ext act axes g h self \<noteq> Inl e)"
  proof (intro allI impI)
    fix ks e assume "kraus act = Some ks \<and> ks \<noteq> []"
    then have "kraus act = Some ks" "ks \<noteq> []" by auto
    from apply_channel_nonempty[OF this, of ext axes g h self]
    show "apply_channel ext act axes g h self \<noteq> Inl e" by auto
  qed
qed

theorem apply_channel_assertion_witness:
  "apply_channel ex_ext ex_no_operators [0] [19/20] ex_store ex_self
      = Inl (AssertionError ''No Kraus operators'')
   \<and> (\<exists>g' h' self'. apply_channel ex_ext ex_no_channel [0] [19/20] ex_store ex_self
          = Inr (None, g', h', self'))
   \<and> kraus ex_channel = Some ex_kraus \<and> ex_kraus \<noteq> []
   \<and> (\<forall>e. apply_channel ex_ext ex_channel [0] [19/20] ex_store ex_self \<noteq> Inl e)"
  using apply_channel_assertion[of ex_no_operators ex_ext "[0]" "[19/20]" ex_store ex_self]
    apply_channel_assertion[of ex_no_channel ex_ext "[0]" "[19/20]" ex_store ex_self]
    apply_channel_assertion[of ex_channel ex_ext "[0]" "[19/20]" ex_store ex_self]
  by (simp add: ex_no_operators_def ex_no_channel_def ex_channel_def ex_kraus_def)

lemma channel_weights_upt:
  assumes "kraus act = Some ks"
  shows "channel_weights ext act axes h self
         = map (kraus_weight ext (kraus_tensors_of act ks) (cells h (state_vector self)) axes) [0..<length ks]"
  using assms
  by (intro nth_equalityI)
     (simp_all add: channel_weights_def kraus_weight_def kraus_image_def kraus_tensors_of_def)

lemma channel_weights_nth:
  assumes "kraus act = Some ks" and "k < length ks"
  shows "channel_weights ext act axes h self ! k
         = kraus_weight ext (kraus_tensors_of act ks) (cells h (state_vector self)) axes k"
  using assms(2) by (simp add: channel_weights_upt[OF assms(1)])

lemma channel_weights_take_sum:
  assumes "kraus act = Some ks" and "j < length ks"
  shows "sum_list (take (Suc j) (channel_weights ext act axes h self))
         = (\<Sum>k\<le>j. kraus_weight ext (kraus_tensors_of act ks) (cells h (state_vector self)) axes k)"
proof -
  have "take (Suc j) [0..<length ks] = [0..<Suc j]" using assms(2) by (simp add: take_upt)
  then show ?thesis
    unfolding channel_weights_upt[OF assms(1)] take_map
    by (simp only: sum_list_upt_atMost)
qed

lemma channel_weights_take_set:
  assumes "kraus act = Some ks" and "i < length ks"
  shows "set (take (Suc i) (channel_weights ext act axes h self))
         = kraus_weight ext (kraus_tensors_of act ks) (cells h (state_vector self)) axes ` {..i}"
proof -
  have "take (Suc i) [0..<length ks] = [0..<Suc i]" using assms(2) by (simp add: take_upt)
  then have "set (take (Suc i) (channel_weights ext act axes h self))
       = kraus_weight ext (kraus_tensors_of act ks) (cells h (state_vector self)) axes ` set [0..<Suc i]"
    unfolding channel_weights_upt[OF assms(1)] take_map by (simp only: set_map)
  also have "set [0..<Suc i] = {..i}" by auto
  finally show ?thesis .
qed

lemma apply_channel_outcome:
  assumes k: "kraus act = Some ks" and ne: "ks \<noteq> []"
    and na: "state_vector self \<noteq> buffer self"
    and r: "prng_random ext g = (p, g')"
  shows "\<exists>i idx h'.
      i < length ks
    \<and> (\<forall>j<i. 0 \<le> p - sum_list (take (Suc j) (channel_weights ext act axes h self)))
    \<and> (Suc i = length ks \<or> p - sum_list (take (Suc i) (channel_weights ext act axes h self)) < 0)
    \<and> apply_channel ext act axes g h self
        = Inr (Some idx, g', h', \<lparr>state_vector = buffer self, buffer = state_vector self\<rparr>)
    \<and> idx \<le> i
    \<and> (0 \<le> p - sum_list (take (Suc i) (channel_weights ext act axes h self))
         \<or> channel_weights ext act axes h self ! i = 0
       \<longrightarrow> channel_weights ext act axes h self ! idx
             = Max (set (take (Suc i) (channel_weights ext act axes h self)))
           \<and> (\<forall>j<idx. channel_weights ext act axes h self ! j < channel_weights ext act axes h self ! idx))
    \<and> (\<not> (0 \<le> p - sum_list (take (Suc i) (channel_weights ext act axes h self))
            \<or> channel_weights ext act axes h self ! i = 0) \<longrightarrow> idx = i)
    \<and> cells h' (buffer self)
        = divide_inplace ext
            (targeted_left_multiply ext (reshape (ks ! idx) (qid_shape act @ qid_shape act))
               (cells h (state_vector self)) axes)
            (sqrt (channel_weights ext act axes h self ! idx))
    \<and> cells h' (state_vector self) = cells h (state_vector self)"
proof -
  let ?w = "kraus_weight ext (kraus_tensors_of act ks) (cells h (state_vector self)) axes"
  let ?ws = "channel_weights ext act axes h self"
  let ?fb = "\<lambda>i. 0 \<le> p - (\<Sum>k\<le>i. ?w k) \<or> ?w i = 0"
  from apply_channel_char[OF k ne na r, where axes=axes and h=h]
  obtain i idx h' where
    il: "i < length ks"
    and a: "\<forall>j<i. 0 \<le> p - (\<Sum>k\<le>j. ?w k)"
    and c: "Suc i = length ks \<or> p - (\<Sum>k\<le>i. ?w k) < 0"
    and ac: "apply_channel ext act axes g h self
        = Inr (Some idx, g', h', \<lparr>state_vector = buffer self, buffer = state_vector self\<rparr>)"
    and ix: "idx = (if ?fb i then snd (foldl (fallback_step ?w) (0, 0) [0..<Suc i]) else i)"
    and hb: "cells h' (buffer self)
        = divide_inplace ext (kraus_image ext (kraus_tensors_of act ks) (cells h (state_vector self)) axes idx)
            (sqrt (?w idx))"
    and hs: "cells h' (state_vector self) = cells h (state_vector self)"
    by blast
  obtain M m where fm: "foldl (fallback_step ?w) (0, 0) [0..<Suc i] = (M, m)"
    by (cases "foldl (fallback_step ?w) (0, 0) [0..<Suc i]") auto
  have inv: "m \<le> i" "?w m = M" "\<forall>j\<le>i. ?w j \<le> M" "\<forall>j<m. ?w j < M"
    using fallback_fold_inv[of ?w i M m, OF kraus_weight_nonneg fm] by auto
  have idxle: "idx \<le> i" using ix fm inv(1) by (simp del: upt_Suc split: if_splits)
  then have idxl: "idx < length ks" using il by simp
  have sums: "sum_list (take (Suc j) ?ws) = (\<Sum>k\<le>j. ?w k)" if "j \<le> i" for j
    by (rule channel_weights_take_sum[OF k]) (use that il in simp)
  have nth: "?ws ! j = ?w j" if "j \<le> i" for j
    by (rule channel_weights_nth[OF k]) (use that il in simp)
  have a': "\<forall>j<i. 0 \<le> p - sum_list (take (Suc j) ?ws)"
    using a sums by simp
  have c': "Suc i = length ks \<or> p - sum_list (take (Suc i) ?ws) < 0"
    using c sums[of i] by simp
  have fbeq: "(0 \<le> p - sum_list (take (Suc i) ?ws) \<or> ?ws ! i = 0) \<longleftrightarrow> ?fb i"
    using sums[of i] nth[of i] by simp
  have mx: "?fb i \<Longrightarrow> ?ws ! idx = Max (set (take (Suc i) ?ws)) \<and> (\<forall>j<idx. ?ws ! j < ?ws ! idx)"
  proof -
    assume fb: "?fb i"
    then have im: "idx = m" using ix fm by (simp del: upt_Suc)
    have "Max (?w ` {..i}) = ?w m"
      by (rule Max_eqI) (use inv in auto)
    then have "?ws ! idx = Max (set (take (Suc i) ?ws))"
      using im inv(1) nth[of m] channel_weights_take_set[OF k il, of ext axes h self] by simp
    moreover have "\<forall>j<idx. ?ws ! j < ?ws ! idx"
      using im inv nth by auto
    ultimately show ?thesis by blast
  qed
  have nfb: "\<not> ?fb i \<Longrightarrow> idx = i" using ix by simp
  have hb': "cells h' (buffer self)
        = divide_inplace ext
            (targeted_left_multiply ext (reshape (ks ! idx) (qid_shape act @ qid_shape act))
               (cells h (state_vector self)) axes)
            (sqrt (?ws ! idx))"
    using hb idxl nth[OF idxle] by (simp add: kraus_image_def kraus_tensors_of_def)
  show ?thesis
    apply (rule exI[of _ i], rule exI[of _ idx], rule exI[of _ h'])
    using il a' c' ac idxle mx nfb hb' hs fbeq by blast
qed

text \<open>
  C1. For an action with a non-empty Kraus decomposition, \<open>apply_channel\<close> goes through
  the operators in order, takes as the weight of each the squared norm of the buffer after
  applying it, subtracts the weights one after the other from the single drawn threshold,
  and returns the index of the first operator at which the running difference is below
  zero. In particular, with weights 3/10 and 7/10 and a draw of 95/100 it returns index 1.
  The state vector and the buffer are distinct arrays, as the class maintains.
\<close>

theorem apply_channel_first_crossing:
  assumes k: "kraus act = Some ks" and ne: "ks \<noteq> []"
    and na: "state_vector self \<noteq> buffer self"
    and r: "prng_random ext g = (p, g')"
  shows "(\<forall>i<length ks.
            p - sum_list (take (Suc i) (channel_weights ext act axes h self)) < 0
          \<and> (\<forall>j<i. 0 \<le> p - sum_list (take (Suc j) (channel_weights ext act axes h self)))
          \<longrightarrow> (\<exists>h' self'. apply_channel ext act axes g h self = Inr (Some i, g', h', self')))
       \<and> (channel_weights ext act axes h self = [3/10, 7/10] \<and> p = 95/100
          \<longrightarrow> (\<exists>h' self'. apply_channel ext act axes g h self = Inr (Some 1, g', h', self')))"
proof -
  let ?ws = "channel_weights ext act axes h self"
  have len: "length ?ws = length ks" using k by (simp add: channel_weights_def)
  have main: "\<exists>h' self'. apply_channel ext act axes g h self = Inr (Some i, g', h', self')"
    if il: "i < length ks" and cr: "p - sum_list (take (Suc i) ?ws) < 0"
      and fst: "\<forall>j<i. 0 \<le> p - sum_list (take (Suc j) ?ws)" for i
  proof -
    from apply_channel_outcome[OF k ne na r, where axes=axes and h=h]
    obtain i0 idx h' where
      i0l: "i0 < length ks"
      and a: "\<forall>j<i0. 0 \<le> p - sum_list (take (Suc j) ?ws)"
      and c: "Suc i0 = length ks \<or> p - sum_list (take (Suc i0) ?ws) < 0"
      and ac: "apply_channel ext act axes g h self
          = Inr (Some idx, g', h', \<lparr>state_vector = buffer self, buffer = state_vector self\<rparr>)"
      and le: "idx \<le> i0"
      and nfb: "\<not> (0 \<le> p - sum_list (take (Suc i0) ?ws) \<or> ?ws ! i0 = 0) \<longrightarrow> idx = i0"
      by blast
    have "\<not> i < i0" using a cr by force
    moreover have "\<not> i0 < i"
    proof
      assume l: "i0 < i"
      with fst have "0 \<le> p - sum_list (take (Suc i0) ?ws)" by blast
      with c have "Suc i0 = length ks" by simp
      with l il show False by simp
    qed
    ultimately have e: "i0 = i" by simp
    have "idx = i"
    proof (cases "?ws ! i = 0")
      case False
      with nfb cr e show ?thesis by simp
    next
      case True
      have "i = 0"
      proof (rule ccontr)
        assume "i \<noteq> 0"
        then obtain i' where i': "i = Suc i'" by (cases i) auto
        have "take (Suc i) ?ws = take i ?ws @ [?ws ! i]"
          using il len by (simp add: take_Suc_conv_app_nth)
        then have "sum_list (take (Suc i) ?ws) = sum_list (take (Suc i') ?ws)"
          using True i' by simp
        moreover have "0 \<le> p - sum_list (take (Suc i') ?ws)" using fst i' by simp
        ultimately show False using cr by simp
      qed
      with le e show ?thesis by simp
    qed
    with ac show ?thesis by blast
  qed
  have ex: "\<exists>h' self'. apply_channel ext act axes g h self = Inr (Some 1, g', h', self')"
    if w: "?ws = [3/10, 7/10]" and p: "p = 95/100"
  proof -
    have "length ks = 2" using len w by simp
    then have "1 < length ks" by simp
    moreover have "p - sum_list (take (Suc 1) ?ws) < 0" using w p by simp
    moreover have "\<forall>j<1. 0 \<le> p - sum_list (take (Suc j) ?ws)" using w p by simp
    ultimately show ?thesis by (rule main)
  qed
  show ?thesis using main ex by blast
qed

theorem apply_channel_first_crossing_witness:
  "kraus ex_channel = Some ex_kraus \<and> ex_kraus \<noteq> []
   \<and> state_vector ex_self \<noteq> buffer ex_self
   \<and> prng_random ex_ext [95/100] = (95/100, [])
   \<and> channel_weights ex_ext ex_channel [0] ex_store ex_self = [3/10, 7/10]
   \<and> (\<exists>h' self'. apply_channel ex_ext ex_channel [0] [95/100] ex_store ex_self
         = Inr (Some 1, [], h', self'))"
proof -
  have a: "kraus ex_channel = Some ex_kraus" by (simp add: ex_channel_def)
  have b: "ex_kraus \<noteq> []" by (simp add: ex_kraus_def)
  have c: "state_vector ex_self \<noteq> buffer ex_self" by (simp add: ex_self_def)
  have d: "prng_random ex_ext [95/100] = (95/100, [])" by (simp add: ex_ext_def)
  show ?thesis
    using apply_channel_first_crossing[OF a b c d, of "[0]" ex_store] a b c d ex_weights
    by simp
qed


lemma channel_weights_norm:
  assumes "kraus act = Some ks" and "idx < length ks"
  shows "channel_weights ext act axes h self ! idx
     = (linalg_norm (targeted_left_multiply ext (reshape (ks ! idx) (qid_shape act @ qid_shape act))
               (cells h (state_vector self)) axes))\<^sup>2"
  using assms by (simp add: channel_weights_def)

lemma sum_list_divide: "(\<Sum>z\<leftarrow>l. f z / c) = (\<Sum>z\<leftarrow>l. f z) / (c::real)"
  by (induction l) (simp_all add: add_divide_distrib)

lemma linalg_norm_scaled:
  assumes "0 < c" and "(linalg_norm a)\<^sup>2 = c"
  shows "(linalg_norm (a\<lparr>data := map (\<lambda>z. z / complex_of_real (sqrt c)) (data a)\<rparr>))\<^sup>2 = 1"
proof -
  have "(\<Sum>z\<leftarrow>data a. (cmod (z / complex_of_real (sqrt c)))\<^sup>2) = (\<Sum>z\<leftarrow>data a. (cmod z)\<^sup>2 / c)"
    using assms(1) by (simp add: norm_divide power_divide)
  also have "\<dots> = (\<Sum>z\<leftarrow>data a. (cmod z)\<^sup>2) / c"
    by (rule sum_list_divide)
  finally show ?thesis using assms by (simp add: linalg_norm_sq o_def)
qed

text \<open>
  C2. Let \<open>i\<close> be the operator at which the loop of \<open>apply_channel\<close> stops (the first one
  at which the running difference is negative, or the last operator). If the difference is
  still non-negative there, or the weight of operator \<open>i\<close> is exactly zero, the returned
  index is that of the largest weight observed (the first such index). In every case the
  call returns an index and raises nothing, and the buffer and the state vector have
  exchanged roles. The weight of the selected operator is the squared norm of the image of
  the state under it. When that weight is not zero, every entry of the image has been
  divided by the square root of the weight, so that the new state has norm one. When it is
  zero (all the weights observed are zero), the division is a division by zero: nothing is
  raised, and the new state is what numpy leaves of the image then.
\<close>

theorem apply_channel_fallback:
  assumes "kraus act = Some ks" and "ks \<noteq> []"
    and "state_vector self \<noteq> buffer self"
    and "prng_random ext g = (p, g')"
  shows "\<exists>i idx h'.
      i < length ks
    \<and> (\<forall>j<i. 0 \<le> p - sum_list (take (Suc j) (channel_weights ext act axes h self)))
    \<and> (Suc i = length ks \<or> p - sum_list (take (Suc i) (channel_weights ext act axes h self)) < 0)
    \<and> apply_channel ext act axes g h self
        = Inr (Some idx, g', h', \<lparr>state_vector = buffer self, buffer = state_vector self\<rparr>)
    \<and> idx \<le> i
    \<and> (0 \<le> p - sum_list (take (Suc i) (channel_weights ext act axes h self))
         \<or> channel_weights ext act axes h self ! i = 0
       \<longrightarrow> channel_weights ext act axes h self ! idx
             = Max (set (take (Suc i) (channel_weights ext act axes h self)))
           \<and> (\<forall>j<idx. channel_weights ext act axes h self ! j < channel_weights ext act axes h self ! idx))
    \<and> channel_weights ext act axes h self ! idx
        = (linalg_norm (targeted_left_multiply ext (reshape (ks ! idx) (qid_shape act @ qid_shape act))
               (cells h (state_vector self)) axes))\<^sup>2
    \<and> (channel_weights ext act axes h self ! idx \<noteq> 0
       \<longrightarrow> shape (cells h' (buffer self))
             = shape (targeted_left_multiply ext (reshape (ks ! idx) (qid_shape act @ qid_shape act))
                 (cells h (state_vector self)) axes)
           \<and> data (cells h' (buffer self))
             = map (\<lambda>z. z / complex_of_real (sqrt (channel_weights ext act axes h self ! idx)))
                 (data (targeted_left_multiply ext (reshape (ks ! idx) (qid_shape act @ qid_shape act))
                    (cells h (state_vector self)) axes))
           \<and> (linalg_norm (cells h' (buffer self)))\<^sup>2 = 1)
    \<and> (channel_weights ext act axes h self ! idx = 0
       \<longrightarrow> cells h' (buffer self)
             = divide_by_zero ext
                 (targeted_left_multiply ext (reshape (ks ! idx) (qid_shape act @ qid_shape act))
                    (cells h (state_vector self)) axes))
    \<and> cells h' (state_vector self) = cells h (state_vector self)"
proof -
  let ?ws = "channel_weights ext act axes h self"
  let ?img = "\<lambda>idx. targeted_left_multiply ext (reshape (ks ! idx) (qid_shape act @ qid_shape act))
               (cells h (state_vector self)) axes"
  from apply_channel_outcome[OF assms, where axes=axes and h=h]
  obtain i idx h' where
    il: "i < length ks"
    and a: "\<forall>j<i. 0 \<le> p - sum_list (take (Suc j) ?ws)"
    and c: "Suc i = length ks \<or> p - sum_list (take (Suc i) ?ws) < 0"
    and ac: "apply_channel ext act axes g h self
        = Inr (Some idx, g', h', \<lparr>state_vector = buffer self, buffer = state_vector self\<rparr>)"
    and le: "idx \<le> i"
    and mx: "0 \<le> p - sum_list (take (Suc i) ?ws) \<or> ?ws ! i = 0
       \<longrightarrow> ?ws ! idx = Max (set (take (Suc i) ?ws)) \<and> (\<forall>j<idx. ?ws ! j < ?ws ! idx)"
    and hb: "cells h' (buffer self) = divide_inplace ext (?img idx) (sqrt (?ws ! idx))"
    and hs: "cells h' (state_vector self) = cells h (state_vector self)"
    by blast
  have idxl: "idx < length ks" using le il by simp
  have wn: "?ws ! idx = (linalg_norm (?img idx))\<^sup>2"
    by (rule channel_weights_norm[OF assms(1) idxl])
  then have w0: "0 \<le> ?ws ! idx" by simp
  have nz: "shape (cells h' (buffer self)) = shape (?img idx)
      \<and> data (cells h' (buffer self))
          = map (\<lambda>z. z / complex_of_real (sqrt (?ws ! idx))) (data (?img idx))
      \<and> (linalg_norm (cells h' (buffer self)))\<^sup>2 = 1" if n: "?ws ! idx \<noteq> 0"
  proof -
    from n w0 have pos: "0 < ?ws ! idx" by simp
    then have "sqrt (?ws ! idx) \<noteq> 0" by simp
    then have e: "cells h' (buffer self)
        = (?img idx)\<lparr>data := map (\<lambda>z. z / complex_of_real (sqrt (?ws ! idx))) (data (?img idx))\<rparr>"
      using hb unfolding divide_inplace_def by simp
    have "(linalg_norm (cells h' (buffer self)))\<^sup>2 = 1"
      unfolding e by (rule linalg_norm_scaled[OF pos wn[symmetric]])
    moreover have "shape (cells h' (buffer self)) = shape (?img idx)" unfolding e by simp
    moreover have "data (cells h' (buffer self))
          = map (\<lambda>z. z / complex_of_real (sqrt (?ws ! idx))) (data (?img idx))"
      unfolding e by simp
    ultimately show ?thesis by blast
  qed
  have z: "cells h' (buffer self) = divide_by_zero ext (?img idx)" if "?ws ! idx = 0"
    using hb that unfolding divide_inplace_def by simp
  show ?thesis
    apply (rule exI[of _ i], rule exI[of _ idx], rule exI[of _ h'])
    using il a c ac le mx wn nz z hs by blast
qed

lemma ex_lossy_weights: "channel_weights ex_ext ex_lossy [0] ex_store ex_self = [1/10, 1/4, 1/10]"
  by (simp add: channel_weights_def ex_ext_def ex_lossy_def ex_channel_def ex_lossy_kraus_def
        ex_store_def ex_self_def linalg_norm_sq_re_im full_left_multiply_def reshape_def upt_2
        power_divide)

lemma ex_null_weights: "channel_weights ex_ext ex_null [0] ex_store ex_self = [0, 0]"
  by (simp add: channel_weights_def ex_ext_def ex_null_def ex_channel_def ex_null_kraus_def
        ex_store_def ex_self_def linalg_norm_sq_re_im full_left_multiply_def reshape_def upt_2)

lemma ex_ext_multiply: "targeted_left_multiply ex_ext = full_left_multiply"
  by (simp add: ex_ext_def)

lemma sqrt_quarter: "sqrt (1/4) = 1/2"
  by (rule real_sqrt_unique) (simp_all add: power2_eq_square)

theorem apply_channel_fallback_witness:
  "kraus ex_lossy = Some ex_lossy_kraus \<and> ex_lossy_kraus \<noteq> []
   \<and> kraus ex_null = Some ex_null_kraus \<and> ex_null_kraus \<noteq> []
   \<and> state_vector ex_self \<noteq> buffer ex_self
   \<and> prng_random ex_ext [19/20] = (19/20, [])
   \<and> channel_weights ex_ext ex_lossy [0] ex_store ex_self = [1/10, 1/4, 1/10]
   \<and> (\<exists>h'. apply_channel ex_ext ex_lossy [0] [19/20] ex_store ex_self
               = Inr (Some 1, [], h', \<lparr>state_vector = 1, buffer = 0\<rparr>)
            \<and> cells h' 1 = \<lparr>shape = [2], data = [1, 0]\<rparr>)
   \<and> channel_weights ex_ext ex_null [0] ex_store ex_self = [0, 0]
   \<and> (\<exists>h'. apply_channel ex_ext ex_null [0] [19/20] ex_store ex_self
               = Inr (Some 0, [], h', \<lparr>state_vector = 1, buffer = 0\<rparr>)
            \<and> cells h' 1 = divide_by_zero ex_ext \<lparr>shape = [2], data = [0, 0]\<rparr>)"
proof -
  let ?ws = "channel_weights ex_ext ex_lossy [0] ex_store ex_self"
  let ?wn = "channel_weights ex_ext ex_null [0] ex_store ex_self"
  have a: "kraus ex_lossy = Some ex_lossy_kraus" by (simp add: ex_lossy_def)
  have b: "ex_lossy_kraus \<noteq> []" by (simp add: ex_lossy_kraus_def)
  have a0: "kraus ex_null = Some ex_null_kraus" by (simp add: ex_null_def)
  have b0: "ex_null_kraus \<noteq> []" by (simp add: ex_null_kraus_def)
  have c: "state_vector ex_self \<noteq> buffer ex_self" by (simp add: ex_self_def)
  have d: "prng_random ex_ext [19/20] = (19/20, [])" by (simp add: ex_ext_def)
  have l: "length ex_lossy_kraus = 3" by (simp add: ex_lossy_kraus_def)
  have l0: "length ex_null_kraus = 2" by (simp add: ex_null_kraus_def)
  from apply_channel_fallback[OF a b c d, of "[0]" ex_store]
  obtain i idx h' where
    il: "i < 3"
    and cr: "Suc i = 3 \<or> 19/20 - sum_list (take (Suc i) ?ws) < 0"
    and ac: "apply_channel ex_ext ex_lossy [0] [19/20] ex_store ex_self
        = Inr (Some idx, [], h', \<lparr>state_vector = buffer ex_self, buffer = state_vector ex_self\<rparr>)"
    and le: "idx \<le> i"
    and fb: "0 \<le> 19/20 - sum_list (take (Suc i) ?ws) \<or> ?ws ! i = 0
       \<longrightarrow> ?ws ! idx = Max (set (take (Suc i) ?ws))"
    and hb: "?ws ! idx \<noteq> 0
       \<longrightarrow> shape (cells h' (buffer ex_self))
             = shape (targeted_left_multiply ex_ext (reshape (ex_lossy_kraus ! idx) (qid_shape ex_lossy @ qid_shape ex_lossy))
                 (cells ex_store (state_vector ex_self)) [0])
           \<and> data (cells h' (buffer ex_self))
             = map (\<lambda>z. z / complex_of_real (sqrt (?ws ! idx)))
                 (data (targeted_left_multiply ex_ext (reshape (ex_lossy_kraus ! idx) (qid_shape ex_lossy @ qid_shape ex_lossy))
                    (cells ex_store (state_vector ex_self)) [0]))"
    unfolding l by blast
  have i2: "i = 2"
  proof -
    from il have "i = 0 \<or> i = 1 \<or> i = 2" by auto
    then show ?thesis using cr by (auto simp: ex_lossy_weights)
  qed
  have "?ws ! idx = 1/4" using fb i2 by (simp add: ex_lossy_weights numeral_3_eq_3)
  moreover from le i2 have "idx = 0 \<or> idx = 1 \<or> idx = 2" by auto
  ultimately have i1: "idx = 1" by (auto simp: ex_lossy_weights)
  have "shape (cells h' 1) = [2] \<and> data (cells h' 1) = [1, 0]"
    using hb unfolding i1 ex_lossy_weights
    by (simp add: ex_self_def ex_ext_multiply ex_lossy_def ex_channel_def ex_lossy_kraus_def
          ex_store_def full_left_multiply_def reshape_def upt_2 sqrt_quarter)
  then have 1: "cells h' 1 = \<lparr>shape = [2], data = [1, 0]\<rparr>"
    by (cases "cells h' 1") simp
  from apply_channel_fallback[OF a0 b0 c d, of "[0]" ex_store]
  obtain k kdx h0 where
    kl: "k < 2"
    and ac0: "apply_channel ex_ext ex_null [0] [19/20] ex_store ex_self
        = Inr (Some kdx, [], h0, \<lparr>state_vector = buffer ex_self, buffer = state_vector ex_self\<rparr>)"
    and le0: "kdx \<le> k"
    and fb0: "0 \<le> 19/20 - sum_list (take (Suc k) ?wn) \<or> ?wn ! k = 0
       \<longrightarrow> (\<forall>j<kdx. ?wn ! j < ?wn ! kdx)"
    and hb0: "?wn ! kdx = 0
       \<longrightarrow> cells h0 (buffer ex_self)
             = divide_by_zero ex_ext
                 (targeted_left_multiply ex_ext (reshape (ex_null_kraus ! kdx) (qid_shape ex_null @ qid_shape ex_null))
                    (cells ex_store (state_vector ex_self)) [0])"
    unfolding l0 by blast
  from kl have k01: "k = 0 \<or> k = 1" by auto
  then have "?wn ! k = 0" by (auto simp: ex_null_weights)
  with fb0 have "\<forall>j<kdx. ?wn ! j < ?wn ! kdx" by simp
  moreover from le0 k01 have "kdx = 0 \<or> kdx = 1" by auto
  ultimately have k0: "kdx = 0" by (auto simp: ex_null_weights)
  have 2: "cells h0 1 = divide_by_zero ex_ext \<lparr>shape = [2], data = [0, 0]\<rparr>"
    using hb0 unfolding k0 ex_null_weights
    by (simp add: ex_self_def ex_ext_multiply ex_null_def ex_channel_def ex_null_kraus_def
          ex_store_def full_left_multiply_def reshape_def upt_2)
  from ac i1 1 have A: "\<exists>h'. apply_channel ex_ext ex_lossy [0] [19/20] ex_store ex_self
               = Inr (Some 1, [], h', \<lparr>state_vector = 1, buffer = 0\<rparr>)
            \<and> cells h' 1 = \<lparr>shape = [2], data = [1, 0]\<rparr>"
    by (simp add: ex_self_def)
  from ac0 k0 2 have B: "\<exists>h'. apply_channel ex_ext ex_null [0] [19/20] ex_store ex_self
               = Inr (Some 0, [], h', \<lparr>state_vector = 1, buffer = 0\<rparr>)
            \<and> cells h' 1 = divide_by_zero ex_ext \<lparr>shape = [2], data = [0, 0]\<rparr>"
    by (simp add: ex_self_def)
  from a b a0 b0 c d ex_lossy_weights ex_null_weights A B show ?thesis by blast
qed

section \<open>The state vector and the buffer stay distinct arrays\<close>


lemma swap_keeps_apart:
  "state_vector self \<noteq> buffer self
   \<Longrightarrow> state_vector (swap_target_tensor_for self new) \<noteq> buffer (swap_target_tensor_for self new)"
  by (simp add: swap_target_tensor_for_def Let_def)

lemma apply_unitary_apart:
  assumes "state_vector self \<noteq> buffer self"
    and "apply_unitary act axes h self = (ok, h', self')"
  shows "state_vector self' \<noteq> buffer self'"
  using assms swap_keeps_apart[OF assms(1)]
  by (auto simp: apply_unitary_def split: option.splits)

lemma apply_mixture_apart:
  assumes "state_vector self \<noteq> buffer self"
    and "apply_mixture ext act axes g h self = Inr (i, g', h', self')"
  shows "state_vector self' \<noteq> buffer self'"
  using assms swap_keeps_apart[OF assms(1)]
  by (auto simp: apply_mixture_def Let_def split_def split: option.splits if_splits)

lemma apply_channel_apart:
  assumes "state_vector self \<noteq> buffer self"
    and "apply_channel ext act axes g h self = Inr (i, g', h', self')"
  shows "state_vector self' \<noteq> buffer self'"
  using assms swap_keeps_apart[OF assms(1)]
  by (auto simp: apply_channel_def Let_def split_def split: option.splits if_splits)

lemma measure_apart:
  assumes "state_vector self \<noteq> buffer self"
    and "measure_bsv ext axes qshape g h self = (bits, g', h', self')"
  shows "state_vector self' \<noteq> buffer self'"
  using assms by (auto simp: measure_bsv_def Let_def split_def)

lemma bsv_init_apart:
  assumes "sv < next_addr h" and "\<forall>b. buf = Some b \<longrightarrow> b \<noteq> sv"
    and "bsv_init h sv buf = (self', h')"
  shows "state_vector self' \<noteq> buffer self'"
  using assms by (auto simp: bsv_init_def empty_like_def alloc_def split: option.splits)

lemma create_apart:
  assumes "\<forall>b. buf = Some b \<longrightarrow> b < next_addr h"
    and "create h initial qshape buf = Inr (self', h')"
  shows "state_vector self' \<noteq> buffer self'"
  using assms
  by (auto simp: create_def bsv_init_def empty_like_def alloc_def Let_def
           split: option.splits initial_state.splits)

text \<open>
  C8. Each of \<open>apply_unitary\<close>, \<open>apply_mixture\<close>, \<open>apply_channel\<close> and \<open>measure\<close>, started
  with the state vector and the buffer in distinct arrays, ends with them in distinct
  arrays; \<open>create\<close> starts every object that way when the buffer it is given is an array
  that already exists. Passing the buffer to \<open>_swap_target_tensor_for\<close> exchanges the two
  references: the old state vector becomes the buffer, and no array is written.
\<close>

theorem state_vector_and_buffer_apart:
  "(state_vector self \<noteq> buffer self \<longrightarrow>
      (\<forall>ok h' self'. apply_unitary act axes h self = (ok, h', self')
          \<longrightarrow> state_vector self' \<noteq> buffer self')
    \<and> (\<forall>i g' h' self'. apply_mixture ext act axes g h self = Inr (i, g', h', self')
          \<longrightarrow> state_vector self' \<noteq> buffer self')
    \<and> (\<forall>i g' h' self'. apply_channel ext act axes g h self = Inr (i, g', h', self')
          \<longrightarrow> state_vector self' \<noteq> buffer self')
    \<and> (\<forall>bits g' h' self'. measure_bsv ext axes qshape g h self = (bits, g', h', self')
          \<longrightarrow> state_vector self' \<noteq> buffer self'))
   \<and> swap_target_tensor_for self (buffer self)
        = \<lparr>state_vector = buffer self, buffer = state_vector self\<rparr>
   \<and> ((\<forall>b. buf = Some b \<longrightarrow> b < next_addr h) \<longrightarrow>
        (\<forall>self' h'. create h initial qshape_opt buf = Inr (self', h')
          \<longrightarrow> state_vector self' \<noteq> buffer self'))"
  using apply_unitary_apart[of self act axes h] apply_mixture_apart[of self ext act axes g h]
    apply_channel_apart[of self ext act axes g h] measure_apart[of self ext axes qshape g h]
    create_apart[of buf h initial qshape_opt] swap_buffer_in[of self]
  by blast

theorem state_vector_and_buffer_apart_witness:
  "state_vector ex_self \<noteq> buffer ex_self
   \<and> apply_unitary ex_unitary [0] ex_store ex_self
        = (True, store_write ex_store 1 \<lparr>shape = [2], data = [0, 1]\<rparr>,
           \<lparr>state_vector = 1, buffer = 0\<rparr>)
   \<and> state_vector (snd (snd (apply_unitary ex_unitary [0] ex_store ex_self)))
        \<noteq> buffer (snd (snd (apply_unitary ex_unitary [0] ex_store ex_self)))
   \<and> swap_target_tensor_for ex_self 1 = \<lparr>state_vector = 1, buffer = 0\<rparr>
   \<and> (1::nat) < next_addr ex_store
   \<and> (case create ex_store (InitialArray 0) None (Some 1) of
         Inl e \<Rightarrow> False | Inr (s, h) \<Rightarrow> state_vector s \<noteq> buffer s)"
proof -
  have a: "state_vector ex_self \<noteq> buffer ex_self" by (simp add: ex_self_def)
  have u: "apply_unitary ex_unitary [0] ex_store ex_self
        = (True, store_write ex_store 1 \<lparr>shape = [2], data = [0, 1]\<rparr>,
           \<lparr>state_vector = 1, buffer = 0\<rparr>)"
    by (simp add: apply_unitary_def ex_unitary_def ex_self_def ex_store_def
          swap_target_tensor_for_def full_left_multiply_def store_write_def upt_2)
  have b: "\<forall>b. Some (1::nat) = Some b \<longrightarrow> b < next_addr ex_store" by (simp add: ex_store_def)
  obtain s h where c: "create ex_store (InitialArray 0) None (Some 1) = Inr (s, h)"
    by (simp add: create_def bsv_init_def alloc_def)
  note t = state_vector_and_buffer_apart[of ex_self ex_unitary "[0]" ex_store ex_ext "[]" "[2]"
              "Some 1" "InitialArray 0" None]
  from t a u have 1: "state_vector (snd (snd (apply_unitary ex_unitary [0] ex_store ex_self)))
        \<noteq> buffer (snd (snd (apply_unitary ex_unitary [0] ex_store ex_self)))"
    by simp
  from t have 2: "swap_target_tensor_for ex_self 1 = \<lparr>state_vector = 1, buffer = 0\<rparr>"
    by (simp add: ex_self_def)
  from t b c have 3: "state_vector s \<noteq> buffer s" by blast
  show ?thesis using a u 1 2 3 c by (simp add: ex_store_def)
qed

section \<open>The strategies of the dispatch chain\<close>


lemma ex_measured_weights:
  "channel_weights ex_ext ex_measured_channel [0] ex_store ex_self = [3/10, 7/10]"
  using ex_weights by (simp add: channel_weights_def ex_measured_channel_def)

lemma ex_measured_selects:
  "\<exists>h'. apply_channel ex_ext ex_measured_channel [0] [19/20] ex_store ex_self
          = Inr (Some 1, [], h', \<lparr>state_vector = 1, buffer = 0\<rparr>)"
proof -
  let ?ws = "channel_weights ex_ext ex_measured_channel [0] ex_store ex_self"
  have a: "kraus ex_measured_channel = Some ex_kraus"
    by (simp add: ex_measured_channel_def ex_channel_def)
  have b: "ex_kraus \<noteq> []" by (simp add: ex_kraus_def)
  have c: "state_vector ex_self \<noteq> buffer ex_self" by (simp add: ex_self_def)
  have d: "prng_random ex_ext [19/20] = (19/20, [])" by (simp add: ex_ext_def)
  have l: "length ex_kraus = 2" by (simp add: ex_kraus_def)
  from apply_channel_outcome[OF a b c d, of "[0]" ex_store]
  obtain i idx h' where
    il: "i < 2"
    and cr: "Suc i = 2 \<or> 19/20 - sum_list (take (Suc i) ?ws) < 0"
    and ac: "apply_channel ex_ext ex_measured_channel [0] [19/20] ex_store ex_self
        = Inr (Some idx, [], h', \<lparr>state_vector = buffer ex_self, buffer = state_vector ex_self\<rparr>)"
    and nfb: "\<not> (0 \<le> 19/20 - sum_list (take (Suc i) ?ws) \<or> ?ws ! i = 0) \<longrightarrow> idx = i"
    unfolding l by blast
  from il have "i = 0 \<or> i = 1" by auto
  then have "i = 1" using cr by (auto simp: ex_measured_weights)
  with nfb have "idx = 1" by (simp add: ex_measured_weights)
  with ac show ?thesis by (simp add: ex_self_def)
qed

lemma ex_channel_selects:
  "\<exists>h'. apply_channel ex_ext ex_channel [0] [19/20] ex_store ex_self
          = Inr (Some 1, [], h', \<lparr>state_vector = 1, buffer = 0\<rparr>)"
proof -
  let ?ws = "channel_weights ex_ext ex_channel [0] ex_store ex_self"
  have a: "kraus ex_channel = Some ex_kraus" by (simp add: ex_channel_def)
  have b: "ex_kraus \<noteq> []" by (simp add: ex_kraus_def)
  have c: "state_vector ex_self \<noteq> buffer ex_self" by (simp add: ex_self_def)
  have d: "prng_random ex_ext [19/20] = (19/20, [])" by (simp add: ex_ext_def)
  have l: "length ex_kraus = 2" by (simp add: ex_kraus_def)
  from apply_channel_outcome[OF a b c d, of "[0]" ex_store]
  obtain i idx h' where
    il: "i < 2"
    and cr: "Suc i = 2 \<or> 19/20 - sum_list (take (Suc i) ?ws) < 0"
    and ac: "apply_channel ex_ext ex_channel [0] [19/20] ex_store ex_self
        = Inr (Some idx, [], h', \<lparr>state_vector = buffer ex_self, buffer = state_vector ex_self\<rparr>)"
    and nfb: "\<not> (0 \<le> 19/20 - sum_list (take (Suc i) ?ws) \<or> ?ws ! i = 0) \<longrightarrow> idx = i"
    unfolding l by blast
  from il have "i = 0 \<or> i = 1" by auto
  then have "i = 1" using cr by (auto simp: ex_weights)
  with nfb have "idx = 1" by (simp add: ex_weights)
  with ac show ?thesis by (simp add: ex_self_def)
qed

lemma ex_mixture_selects:
  "\<exists>h'. apply_mixture ex_ext ex_measured_mixture [0] [19/20] ex_store ex_self
          = Inr (Some 1, [19/20], h', \<lparr>state_vector = 1, buffer = 0\<rparr>)"
  by (simp add: apply_mixture_def ex_measured_mixture_def ex_ext_def ex_self_def
        swap_target_tensor_for_def)

text \<open>
  C10. The mixture strategy succeeds exactly when \<open>apply_mixture\<close> selects an index, and the
  channel strategy exactly when \<open>apply_channel\<close> does. The strategy then returns \<open>True\<close> with
  that index recorded in the classical data store under the measurement key name of the
  action if the action is a measurement, and with the store left as it was if it is not.
  The unitary strategy leaves the store as it was, and so does a mixture or channel
  strategy that returns \<open>NotImplemented\<close>, which is what each returns when no index is
  selected.
\<close>

theorem strategies_record_measurement:
  "(\<forall>r a'. strat_act_on_state_vector_from_apply_unitary ext act args qs = Inr (r, a')
       \<longrightarrow> classical_data a' = classical_data args)
   \<and> (\<forall>a'. strat_act_on_state_vector_from_mixture ext act args qs = Inr (RTrue, a')
       \<longrightarrow> (\<exists>i g' h' st'.
              apply_mixture ext act (get_axes ext (qubits args) qs) (prng args) (heap args) (state args)
                = Inr (Some i, g', h', st')
            \<and> classical_data a'
                = (if is_measurement act
                   then record_channel_measurement ext (classical_data args) (measurement_key_name act) i
                   else classical_data args)))
   \<and> (\<forall>a'. strat_act_on_state_vector_from_channel ext act args qs = Inr (RTrue, a')
       \<longrightarrow> (\<exists>i g' h' st'.
              apply_channel ext act (get_axes ext (qubits args) qs) (prng args) (heap args) (state args)
                = Inr (Some i, g', h', st')
            \<and> classical_data a'
                = (if is_measurement act
                   then record_channel_measurement ext (classical_data args) (measurement_key_name act) i
                   else classical_data args)))
   \<and> (\<forall>a'. strat_act_on_state_vector_from_mixture ext act args qs = Inr (RNotImplemented, a')
       \<longrightarrow> classical_data a' = classical_data args)
   \<and> (\<forall>a'. strat_act_on_state_vector_from_channel ext act args qs = Inr (RNotImplemented, a')
       \<longrightarrow> classical_data a' = classical_data args)
   \<and> (\<forall>i g' h' st'.
         apply_mixture ext act (get_axes ext (qubits args) qs) (prng args) (heap args) (state args)
           = Inr (Some i, g', h', st')
       \<longrightarrow> strat_act_on_state_vector_from_mixture ext act args qs
             = Inr (RTrue, args\<lparr>heap := h', state := st', prng := g',
                      classical_data :=
                        (if is_measurement act
                         then record_channel_measurement ext (classical_data args) (measurement_key_name act) i
                         else classical_data args)\<rparr>))
   \<and> (\<forall>i g' h' st'.
         apply_channel ext act (get_axes ext (qubits args) qs) (prng args) (heap args) (state args)
           = Inr (Some i, g', h', st')
       \<longrightarrow> strat_act_on_state_vector_from_channel ext act args qs
             = Inr (RTrue, args\<lparr>heap := h', state := st', prng := g',
                      classical_data :=
                        (if is_measurement act
                         then record_channel_measurement ext (classical_data args) (measurement_key_name act) i
                         else classical_data args)\<rparr>))
   \<and> (\<forall>g' h' st'.
         apply_mixture ext act (get_axes ext (qubits args) qs) (prng args) (heap args) (state args)
           = Inr (None, g', h', st')
       \<longrightarrow> strat_act_on_state_vector_from_mixture ext act args qs
             = Inr (RNotImplemented, args\<lparr>heap := h', state := st', prng := g'\<rparr>))
   \<and> (\<forall>g' h' st'.
         apply_channel ext act (get_axes ext (qubits args) qs) (prng args) (heap args) (state args)
           = Inr (None, g', h', st')
       \<longrightarrow> strat_act_on_state_vector_from_channel ext act args qs
             = Inr (RNotImplemented, args\<lparr>heap := h', state := st', prng := g'\<rparr>))"
proof (intro conjI allI impI)
  fix r a' assume "strat_act_on_state_vector_from_apply_unitary ext act args qs = Inr (r, a')"
  then show "classical_data a' = classical_data args"
    by (auto simp: strat_act_on_state_vector_from_apply_unitary_def split_def Let_def)
next
  fix a' assume s: "strat_act_on_state_vector_from_mixture ext act args qs = Inr (RTrue, a')"
  then obtain index g' h' st' where
    m: "apply_mixture ext act (get_axes ext (qubits args) qs) (prng args) (heap args) (state args)
          = Inr (index, g', h', st')"
    by (cases "apply_mixture ext act (get_axes ext (qubits args) qs) (prng args) (heap args) (state args)")
       (auto simp: strat_act_on_state_vector_from_mixture_def)
  from s m show "\<exists>i g' h' st'.
              apply_mixture ext act (get_axes ext (qubits args) qs) (prng args) (heap args) (state args)
                = Inr (Some i, g', h', st')
            \<and> classical_data a'
                = (if is_measurement act
                   then record_channel_measurement ext (classical_data args) (measurement_key_name act) i
                   else classical_data args)"
    by (cases index)
       (auto simp: strat_act_on_state_vector_from_mixture_def Let_def split: if_splits)
next
  fix a' assume s: "strat_act_on_state_vector_from_channel ext act args qs = Inr (RTrue, a')"
  then obtain index g' h' st' where
    m: "apply_channel ext act (get_axes ext (qubits args) qs) (prng args) (heap args) (state args)
          = Inr (index, g', h', st')"
    by (cases "apply_channel ext act (get_axes ext (qubits args) qs) (prng args) (heap args) (state args)")
       (auto simp: strat_act_on_state_vector_from_channel_def)
  from s m show "\<exists>i g' h' st'.
              apply_channel ext act (get_axes ext (qubits args) qs) (prng args) (heap args) (state args)
                = Inr (Some i, g', h', st')
            \<and> classical_data a'
                = (if is_measurement act
                   then record_channel_measurement ext (classical_data args) (measurement_key_name act) i
                   else classical_data args)"
    by (cases index)
       (auto simp: strat_act_on_state_vector_from_channel_def Let_def split: if_splits)
next
  fix a' assume "strat_act_on_state_vector_from_mixture ext act args qs = Inr (RNotImplemented, a')"
  then show "classical_data a' = classical_data args"
    by (auto simp: strat_act_on_state_vector_from_mixture_def split_def Let_def
             split: option.splits if_splits sum.splits)
next
  fix a' assume "strat_act_on_state_vector_from_channel ext act args qs = Inr (RNotImplemented, a')"
  then show "classical_data a' = classical_data args"
    by (auto simp: strat_act_on_state_vector_from_channel_def split_def Let_def
             split: option.splits if_splits sum.splits)
next
  fix i g' h' st'
  assume "apply_mixture ext act (get_axes ext (qubits args) qs) (prng args) (heap args) (state args)
           = Inr (Some i, g', h', st')"
  then show "strat_act_on_state_vector_from_mixture ext act args qs
             = Inr (RTrue, args\<lparr>heap := h', state := st', prng := g',
                      classical_data :=
                        (if is_measurement act
                         then record_channel_measurement ext (classical_data args) (measurement_key_name act) i
                         else classical_data args)\<rparr>)"
    by (cases args) (simp add: strat_act_on_state_vector_from_mixture_def)
next
  fix i g' h' st'
  assume "apply_channel ext act (get_axes ext (qubits args) qs) (prng args) (heap args) (state args)
           = Inr (Some i, g', h', st')"
  then show "strat_act_on_state_vector_from_channel ext act args qs
             = Inr (RTrue, args\<lparr>heap := h', state := st', prng := g',
                      classical_data :=
                        (if is_measurement act
                         then record_channel_measurement ext (classical_data args) (measurement_key_name act) i
                         else classical_data args)\<rparr>)"
    by (cases args) (simp add: strat_act_on_state_vector_from_channel_def)
next
  fix g' h' st'
  assume "apply_mixture ext act (get_axes ext (qubits args) qs) (prng args) (heap args) (state args)
           = Inr (None, g', h', st')"
  then show "strat_act_on_state_vector_from_mixture ext act args qs
             = Inr (RNotImplemented, args\<lparr>heap := h', state := st', prng := g'\<rparr>)"
    by (simp add: strat_act_on_state_vector_from_mixture_def)
next
  fix g' h' st'
  assume "apply_channel ext act (get_axes ext (qubits args) qs) (prng args) (heap args) (state args)
           = Inr (None, g', h', st')"
  then show "strat_act_on_state_vector_from_channel ext act args qs
             = Inr (RNotImplemented, args\<lparr>heap := h', state := st', prng := g'\<rparr>)"
    by (simp add: strat_act_on_state_vector_from_channel_def)
qed

theorem strategies_record_measurement_witness:
  "(\<exists>a'. strat_act_on_state_vector_from_channel ex_ext ex_measured_channel ex_args [0] = Inr (RTrue, a')
         \<and> classical_data a' = [(''m'', 1)])
   \<and> (\<exists>a'. strat_act_on_state_vector_from_apply_unitary ex_ext ex_unitary ex_args [0] = Inr (RTrue, a')
         \<and> classical_data a' = [])
   \<and> (\<exists>a'. strat_act_on_state_vector_from_mixture ex_ext ex_measured_mixture ex_args [0] = Inr (RTrue, a')
         \<and> classical_data a' = [(''mx'', 1)])
   \<and> (\<exists>a'. strat_act_on_state_vector_from_channel ex_ext ex_channel ex_args [0] = Inr (RTrue, a')
         \<and> classical_data a' = [])
   \<and> (\<exists>a'. strat_act_on_state_vector_from_mixture ex_ext ex_channel ex_args [0] = Inr (RNotImplemented, a')
         \<and> classical_data a' = [])"
proof -
  have ax: "get_axes ex_ext (qubits ex_args) [0] = [0]" by (simp add: ex_ext_def)
  have f: "prng ex_args = [19/20]" "heap ex_args = ex_store" "state ex_args = ex_self"
    "classical_data ex_args = []"
    by (simp_all add: ex_args_def)
  have rc: "record_channel_measurement ex_ext [] key i = [(key, i)]" for key i
    by (simp add: ex_ext_def)
  obtain h1 where e1: "apply_channel ex_ext ex_measured_channel [0] [19/20] ex_store ex_self
          = Inr (Some 1, [], h1, \<lparr>state_vector = 1, buffer = 0\<rparr>)"
    using ex_measured_selects by blast
  obtain h2 where e2: "apply_mixture ex_ext ex_measured_mixture [0] [19/20] ex_store ex_self
          = Inr (Some 1, [19/20], h2, \<lparr>state_vector = 1, buffer = 0\<rparr>)"
    using ex_mixture_selects by blast
  obtain h3 where e3: "apply_channel ex_ext ex_channel [0] [19/20] ex_store ex_self
          = Inr (Some 1, [], h3, \<lparr>state_vector = 1, buffer = 0\<rparr>)"
    using ex_channel_selects by blast
  have e4: "apply_mixture ex_ext ex_channel [0] [19/20] ex_store ex_self
          = Inr (None, [19/20], ex_store, ex_self)"
    by (simp add: apply_mixture_def ex_channel_def)
  have m1: "is_measurement ex_measured_channel" "measurement_key_name ex_measured_channel = ''m''"
    by (simp_all add: ex_measured_channel_def)
  have m2: "is_measurement ex_measured_mixture" "measurement_key_name ex_measured_mixture = ''mx''"
    by (simp_all add: ex_measured_mixture_def)
  have m3: "\<not> is_measurement ex_channel" by (simp add: ex_channel_def)
  have 1: "\<exists>a'. strat_act_on_state_vector_from_channel ex_ext ex_measured_channel ex_args [0] = Inr (RTrue, a')
         \<and> classical_data a' = [(''m'', 1)]"
    using strategies_record_measurement[of ex_ext ex_measured_channel ex_args "[0]"] e1
    by (simp add: ax f m1 rc)
  obtain b' where u: "strat_act_on_state_vector_from_apply_unitary ex_ext ex_unitary ex_args [0] = Inr (RTrue, b')"
    by (simp add: strat_act_on_state_vector_from_apply_unitary_def ax f apply_unitary_def ex_unitary_def)
  from strategies_record_measurement[of ex_ext ex_unitary ex_args "[0]"] u
  have "classical_data b' = []" by (simp add: f)
  with u have 2: "\<exists>a'. strat_act_on_state_vector_from_apply_unitary ex_ext ex_unitary ex_args [0] = Inr (RTrue, a')
         \<and> classical_data a' = []"
    by blast
  have 3: "\<exists>a'. strat_act_on_state_vector_from_mixture ex_ext ex_measured_mixture ex_args [0] = Inr (RTrue, a')
         \<and> classical_data a' = [(''mx'', 1)]"
    using strategies_record_measurement[of ex_ext ex_measured_mixture ex_args "[0]"] e2
    by (simp add: ax f m2 rc)
  have 4: "\<exists>a'. strat_act_on_state_vector_from_channel ex_ext ex_channel ex_args [0] = Inr (RTrue, a')
         \<and> classical_data a' = []"
    using strategies_record_measurement[of ex_ext ex_channel ex_args "[0]"] e3
    by (simp add: ax f m3)
  have 5: "\<exists>a'. strat_act_on_state_vector_from_mixture ex_ext ex_channel ex_args [0] = Inr (RNotImplemented, a')
         \<and> classical_data a' = []"
    using strategies_record_measurement[of ex_ext ex_channel ex_args "[0]"] e4
    by (simp add: ax f)
  show ?thesis using 1 2 3 4 5 by blast
qed

lemma occurs_in_iff: "occurs_in needle hay \<longleftrightarrow> (\<exists>p s. hay = p @ needle @ s)"
proof (induction hay)
  case Nil
  then show ?case by auto
next
  case (Cons c cs)
  show ?case
  proof
    assume "occurs_in needle (c # cs)"
    then consider "take (length needle) (c # cs) = needle" | "occurs_in needle cs" by auto
    then show "\<exists>p s. c # cs = p @ needle @ s"
    proof cases
      case 1
      then have "c # cs = [] @ needle @ drop (length needle) (c # cs)"
        by (metis append_Nil append_take_drop_id)
      then show ?thesis by blast
    next
      case 2
      with Cons.IH obtain p s where "cs = p @ needle @ s" by blast
      then have "c # cs = (c # p) @ needle @ s" by simp
      then show ?thesis by blast
    qed
  next
    assume "\<exists>p s. c # cs = p @ needle @ s"
    then obtain p s where e: "c # cs = p @ needle @ s" by blast
    show "occurs_in needle (c # cs)"
    proof (cases p)
      case Nil
      with e have "take (length needle) (c # cs) = needle" by simp
      then show ?thesis by simp
    next
      case (Cons d p')
      with e have "cs = p' @ needle @ s" by simp
      with Cons.IH show ?thesis by auto
    qed
  qed
qed

lemma cannot_simulate_names:
  "occurs_in ''SupportsUnitary'' (cannot_simulate act)"
  "occurs_in ''SupportsConsistentApplyUnitary'' (cannot_simulate act)"
  "occurs_in ''SupportsMixture'' (cannot_simulate act)"
  "occurs_in ''is a measurement'' (cannot_simulate act)"
proof -
  let ?a = "''Can'' @ [CHR 0x27] @ ''t simulate operations that don'' @ [CHR 0x27] @ ''t implement ''"
  show "occurs_in ''SupportsUnitary'' (cannot_simulate act)"
    unfolding occurs_in_iff cannot_simulate_def
    by (rule exI[of _ ?a],
        rule exI[of _ "'', SupportsConsistentApplyUnitary, SupportsMixture or is a measurement: '' @ repr act"])
       simp
  show "occurs_in ''SupportsConsistentApplyUnitary'' (cannot_simulate act)"
    unfolding occurs_in_iff cannot_simulate_def
    by (rule exI[of _ "?a @ ''SupportsUnitary, ''"],
        rule exI[of _ "'', SupportsMixture or is a measurement: '' @ repr act"])
       simp
  show "occurs_in ''SupportsMixture'' (cannot_simulate act)"
    unfolding occurs_in_iff cannot_simulate_def
    by (rule exI[of _ "?a @ ''SupportsUnitary, SupportsConsistentApplyUnitary, ''"],
        rule exI[of _ "'' or is a measurement: '' @ repr act"])
       simp
  show "occurs_in ''is a measurement'' (cannot_simulate act)"
    unfolding occurs_in_iff cannot_simulate_def
    by (rule exI[of _ "?a @ ''SupportsUnitary, SupportsConsistentApplyUnitary, SupportsMixture or ''"],
        rule exI[of _ "'': '' @ repr act"])
       simp
qed

lemma ex_inert_message:
  "cannot_simulate ex_inert =
     ''Can'' @ [CHR 0x27] @ ''t simulate operations that don'' @ [CHR 0x27] @ ''t implement SupportsUnitary, SupportsConsistentApplyUnitary, SupportsMixture or is a measurement: ex_inert''"
  by (simp add: cannot_simulate_def ex_inert_def)

lemma ex_inert_no_channel:
  "\<not> occurs_in ''hannel'' (cannot_simulate ex_inert)"
  "\<not> occurs_in ''raus'' (cannot_simulate ex_inert)"
  unfolding ex_inert_message by simp_all

text \<open>
  C3 (as the source has it). \<open>_act_on_fallback_\<close> runs the unitary strategy, then the
  mixture strategy, then the channel strategy, then, only when decomposition is allowed, the
  decompose strategy, each on the state the previous one left, and returns \<open>True\<close> at the
  first that succeeds. When every strategy tried returns \<open>NotImplemented\<close> it raises a
  \<open>TypeError\<close> whose message names \<open>SupportsUnitary\<close>, \<open>SupportsConsistentApplyUnitary\<close>,
  \<open>SupportsMixture\<close> and being a measurement, followed by the \<open>repr\<close> of the action.
\<close>

theorem act_on_fallback_chain:
  "(\<forall>a1. strat_act_on_state_vector_from_apply_unitary ext act args qs = Inr (RTrue, a1)
      \<longrightarrow> act_on_fallback ext decomp act args qs allow = Inr (True, a1))
   \<and> (\<forall>a1 a2. strat_act_on_state_vector_from_apply_unitary ext act args qs = Inr (RNotImplemented, a1)
         \<and> strat_act_on_state_vector_from_mixture ext act a1 qs = Inr (RTrue, a2)
      \<longrightarrow> act_on_fallback ext decomp act args qs allow = Inr (True, a2))
   \<and> (\<forall>a1 a2 a3. strat_act_on_state_vector_from_apply_unitary ext act args qs = Inr (RNotImplemented, a1)
         \<and> strat_act_on_state_vector_from_mixture ext act a1 qs = Inr (RNotImplemented, a2)
         \<and> strat_act_on_state_vector_from_channel ext act a2 qs = Inr (RTrue, a3)
      \<longrightarrow> act_on_fallback ext decomp act args qs allow = Inr (True, a3))
   \<and> (\<forall>a1 a2 a3 a4. strat_act_on_state_vector_from_apply_unitary ext act args qs = Inr (RNotImplemented, a1)
         \<and> strat_act_on_state_vector_from_mixture ext act a1 qs = Inr (RNotImplemented, a2)
         \<and> strat_act_on_state_vector_from_channel ext act a2 qs = Inr (RNotImplemented, a3)
         \<and> allow \<and> decomp act a3 qs = Inr (RTrue, a4)
      \<longrightarrow> act_on_fallback ext decomp act args qs allow = Inr (True, a4))
   \<and> (\<forall>a1 a2 a3. strat_act_on_state_vector_from_apply_unitary ext act args qs = Inr (RNotImplemented, a1)
         \<and> strat_act_on_state_vector_from_mixture ext act a1 qs = Inr (RNotImplemented, a2)
         \<and> strat_act_on_state_vector_from_channel ext act a2 qs = Inr (RNotImplemented, a3)
         \<and> (allow \<longrightarrow> (\<exists>a4. decomp act a3 qs = Inr (RNotImplemented, a4)))
      \<longrightarrow> act_on_fallback ext decomp act args qs allow = Inl (TypeError (cannot_simulate act)))
   \<and> occurs_in ''SupportsUnitary'' (cannot_simulate act)
   \<and> occurs_in ''SupportsConsistentApplyUnitary'' (cannot_simulate act)
   \<and> occurs_in ''SupportsMixture'' (cannot_simulate act)
   \<and> occurs_in ''is a measurement'' (cannot_simulate act)
   \<and> (\<exists>p. cannot_simulate act = p @ repr act)"
proof (intro conjI allI impI)
  show "\<exists>p. cannot_simulate act = p @ repr act"
    unfolding cannot_simulate_def
    by (metis append.assoc)
qed (auto simp: act_on_fallback_def Let_def cannot_simulate_names)

theorem act_on_fallback_chain_witness:
  "(\<exists>a. act_on_fallback ex_ext ex_no_decompose ex_measured_channel ex_args [0] True = Inr (True, a))
   \<and> act_on_fallback ex_ext ex_no_decompose ex_inert ex_args [0] False
        = Inl (TypeError (cannot_simulate ex_inert))"
proof -
  have ax: "get_axes ex_ext (qubits ex_args) [0] = [0]" by (simp add: ex_ext_def)
  have f: "prng ex_args = [19/20]" "heap ex_args = ex_store" "state ex_args = ex_self"
    by (simp_all add: ex_args_def)
  have u: "strat_act_on_state_vector_from_apply_unitary ex_ext ex_measured_channel ex_args [0]
            = Inr (RNotImplemented, ex_args)"
    by (simp add: strat_act_on_state_vector_from_apply_unitary_def apply_unitary_def
          ex_measured_channel_def ex_channel_def ex_args_def)
  have m: "strat_act_on_state_vector_from_mixture ex_ext ex_measured_channel ex_args [0]
            = Inr (RNotImplemented, ex_args)"
    by (simp add: strat_act_on_state_vector_from_mixture_def apply_mixture_def
          ex_measured_channel_def ex_channel_def ex_args_def)
  obtain h' where e: "apply_channel ex_ext ex_measured_channel [0] [19/20] ex_store ex_self
          = Inr (Some 1, [], h', \<lparr>state_vector = 1, buffer = 0\<rparr>)"
    using ex_measured_selects by blast
  obtain a3 where c: "strat_act_on_state_vector_from_channel ex_ext ex_measured_channel ex_args [0]
            = Inr (RTrue, a3)"
    using e by (simp add: strat_act_on_state_vector_from_channel_def ax f ex_measured_channel_def)
  from act_on_fallback_chain[of ex_ext ex_measured_channel ex_args "[0]" ex_no_decompose True] u m c
  have 1: "act_on_fallback ex_ext ex_no_decompose ex_measured_channel ex_args [0] True = Inr (True, a3)"
    by blast
  have u': "strat_act_on_state_vector_from_apply_unitary ex_ext ex_inert ex_args [0]
            = Inr (RNotImplemented, ex_args)"
    by (simp add: strat_act_on_state_vector_from_apply_unitary_def apply_unitary_def
          ex_inert_def ex_args_def)
  have m': "strat_act_on_state_vector_from_mixture ex_ext ex_inert ex_args [0]
            = Inr (RNotImplemented, ex_args)"
    by (simp add: strat_act_on_state_vector_from_mixture_def apply_mixture_def
          ex_inert_def ex_args_def)
  have c': "strat_act_on_state_vector_from_channel ex_ext ex_inert ex_args [0]
            = Inr (RNotImplemented, ex_args)"
    by (simp add: strat_act_on_state_vector_from_channel_def apply_channel_def
          ex_inert_def ex_args_def)
  from act_on_fallback_chain[of ex_ext ex_inert ex_args "[0]" ex_no_decompose False] u' m' c'
  have 2: "act_on_fallback ex_ext ex_no_decompose ex_inert ex_args [0] False
        = Inl (TypeError (cannot_simulate ex_inert))"
    by blast
  show ?thesis using 1 2 by blast
qed

theorem act_on_fallback_message_counterexample:
  "act_on_fallback ex_ext ex_no_decompose ex_inert ex_args [0] True
     = Inl (TypeError (cannot_simulate ex_inert))
   \<and> cannot_simulate ex_inert
       = ''Can'' @ [CHR 0x27] @ ''t simulate operations that don'' @ [CHR 0x27] @ ''t implement SupportsUnitary, SupportsConsistentApplyUnitary, SupportsMixture or is a measurement: ex_inert''
   \<and> \<not> occurs_in ''hannel'' (cannot_simulate ex_inert)
   \<and> \<not> occurs_in ''raus'' (cannot_simulate ex_inert)"
proof -
  have "act_on_fallback ex_ext ex_no_decompose ex_inert ex_args [0] True
     = Inl (TypeError (cannot_simulate ex_inert))"
    by (simp add: act_on_fallback_def Let_def strat_act_on_state_vector_from_apply_unitary_def
          strat_act_on_state_vector_from_mixture_def strat_act_on_state_vector_from_channel_def
          apply_unitary_def apply_mixture_def apply_channel_def ex_inert_def ex_args_def
          ex_no_decompose_def)
  then show ?thesis using ex_inert_message ex_inert_no_channel by simp
qed

section \<open>Single-qubit Clifford gates: the properties the tests check\<close>

lemmas tableau_eval = gate_of_def to_clifford_tableau_def transform_def image_of_def
  image_step_def row_string_def mul_pauli_string_def string_sign_def xor_bits_def overlap_def
  then_tableau_def merged_with_def Let_def

lemma all_rotation_pairs_eval:
  "all_rotation_pairs =
    [(\<lparr>to = X, flip = False\<rparr>, \<lparr>to = Y, flip = False\<rparr>),
     (\<lparr>to = X, flip = False\<rparr>, \<lparr>to = Y, flip = True\<rparr>),
     (\<lparr>to = X, flip = False\<rparr>, \<lparr>to = Z, flip = False\<rparr>),
     (\<lparr>to = X, flip = False\<rparr>, \<lparr>to = Z, flip = True\<rparr>),
     (\<lparr>to = X, flip = True\<rparr>, \<lparr>to = Y, flip = False\<rparr>),
     (\<lparr>to = X, flip = True\<rparr>, \<lparr>to = Y, flip = True\<rparr>),
     (\<lparr>to = X, flip = True\<rparr>, \<lparr>to = Z, flip = False\<rparr>),
     (\<lparr>to = X, flip = True\<rparr>, \<lparr>to = Z, flip = True\<rparr>),
     (\<lparr>to = Y, flip = False\<rparr>, \<lparr>to = X, flip = False\<rparr>),
     (\<lparr>to = Y, flip = False\<rparr>, \<lparr>to = X, flip = True\<rparr>),
     (\<lparr>to = Y, flip = False\<rparr>, \<lparr>to = Z, flip = False\<rparr>),
     (\<lparr>to = Y, flip = False\<rparr>, \<lparr>to = Z, flip = True\<rparr>),
     (\<lparr>to = Y, flip = True\<rparr>, \<lparr>to = X, flip = False\<rparr>),
     (\<lparr>to = Y, flip = True\<rparr>, \<lparr>to = X, flip = True\<rparr>),
     (\<lparr>to = Y, flip = True\<rparr>, \<lparr>to = Z, flip = False\<rparr>),
     (\<lparr>to = Y, flip = True\<rparr>, \<lparr>to = Z, flip = True\<rparr>),
     (\<lparr>to = Z, flip = False\<rparr>, \<lparr>to = X, flip = False\<rparr>),
     (\<lparr>to = Z, flip = False\<rparr>, \<lparr>to = X, flip = True\<rparr>),
     (\<lparr>to = Z, flip = False\<rparr>, \<lparr>to = Y, flip = False\<rparr>),
     (\<lparr>to = Z, flip = False\<rparr>, \<lparr>to = Y, flip = True\<rparr>),
     (\<lparr>to = Z, flip = True\<rparr>, \<lparr>to = X, flip = False\<rparr>),
     (\<lparr>to = Z, flip = True\<rparr>, \<lparr>to = X, flip = True\<rparr>),
     (\<lparr>to = Z, flip = True\<rparr>, \<lparr>to = Y, flip = False\<rparr>),
     (\<lparr>to = Z, flip = True\<rparr>, \<lparr>to = Y, flip = True\<rparr>)]"
  by (simp add: all_rotation_pairs_def paulis_def bools_def)

lemma pairs_cover:
  "set all_rotation_pairs = {(trans_x, trans_z). to trans_x \<noteq> to trans_z}"
proof (intro set_eqI iffI)
  fix p assume "p \<in> set all_rotation_pairs"
  then show "p \<in> {(trans_x, trans_z). to trans_x \<noteq> to trans_z}"
    unfolding all_rotation_pairs_eval by auto
next
  fix p :: "pauli_transform \<times> pauli_transform"
  assume a: "p \<in> {(trans_x, trans_z). to trans_x \<noteq> to trans_z}"
  obtain px fx pz fz where p: "p = (\<lparr>to = px, flip = fx\<rparr>, \<lparr>to = pz, flip = fz\<rparr>)"
    by (cases p, cases "fst p", cases "snd p") auto
  with a have "px \<noteq> pz" by simp
  then show "p \<in> set all_rotation_pairs"
    unfolding all_rotation_pairs_eval p
    by (cases px; cases pz; cases fx; cases fz) simp_all
qed

lemma from_xz_map_transform:
  assumes "px \<noteq> pz"
  shows "transform (gate_of px fx pz fz) X = Some \<lparr>to = px, flip = fx\<rparr>"
    and "transform (gate_of px fx pz fz) Z = Some \<lparr>to = pz, flip = fz\<rparr>"
  using assms
  by (cases px; cases pz; cases fx; cases fz; simp add: tableau_eval)+

lemma gate_of_checks:
  assumes "px \<noteq> pz"
  shows "\<exists>trans_y. transform (gate_of px fx pz fz) Y = Some trans_y
           \<and> to trans_y \<noteq> px \<and> to trans_y \<noteq> pz
           \<and> right_handed \<lparr>to = px, flip = fx\<rparr> trans_y \<lparr>to = pz, flip = fz\<rparr>"
    and "assert_not_mirror (gate_of px fx pz fz)"
    and "assert_no_collision (gate_of px fx pz fz)"
  using assms
  by (cases px; cases pz; cases fx; cases fz;
      simp add: tableau_eval assert_not_mirror_def assert_no_collision_def relative_index_def
        right_handed_def)+

text \<open>
  C6. For every pair of Pauli transforms with distinct target axes, the gate that
  \<open>from_xz_map\<close> builds maps X to the first and Z to the second; the image it derives for Y
  lies on the third axis, so the three images are pairwise distinct, and they form a
  right-handed relabelling of the axes: the checks \<open>_assert_not_mirror\<close> and
  \<open>_assert_no_collision\<close> of the test module hold.
\<close>

theorem from_xz_map_round_trip:
  assumes "to trans_x \<noteq> to trans_z"
  shows "\<exists>gate trans_y.
           from_xz_map trans_x trans_z = Inr gate
         \<and> transform gate X = Some trans_x
         \<and> transform gate Z = Some trans_z
         \<and> transform gate Y = Some trans_y
         \<and> distinct [to trans_x, to trans_y, to trans_z]
         \<and> right_handed trans_x trans_y trans_z
         \<and> assert_not_mirror gate
         \<and> assert_no_collision gate"
proof -
  obtain px fx where x: "trans_x = \<lparr>to = px, flip = fx\<rparr>" by (cases trans_x) auto
  obtain pz fz where z: "trans_z = \<lparr>to = pz, flip = fz\<rparr>" by (cases trans_z) auto
  from assms have ne: "px \<noteq> pz" by (simp add: x z)
  have g: "from_xz_map trans_x trans_z = Inr (gate_of px fx pz fz)"
    using ne by (simp add: from_xz_map_def gate_of_def x z)
  from gate_of_checks(1)[OF ne, of fx fz] obtain trans_y where
    y: "transform (gate_of px fx pz fz) Y = Some trans_y"
    "to trans_y \<noteq> px" "to trans_y \<noteq> pz"
    "right_handed \<lparr>to = px, flip = fx\<rparr> trans_y \<lparr>to = pz, flip = fz\<rparr>"
    by blast
  show ?thesis
    apply (rule exI[of _ "gate_of px fx pz fz"], rule exI[of _ trans_y])
    using g y ne from_xz_map_transform[OF ne, of fx fz] gate_of_checks(2,3)[OF ne, of fx fz]
    by (auto simp: x z)
qed

theorem from_xz_map_round_trip_witness:
  "to \<lparr>to = Z, flip = False\<rparr> \<noteq> to \<lparr>to = X, flip = False\<rparr>
   \<and> from_xz_map \<lparr>to = Z, flip = False\<rparr> \<lparr>to = X, flip = False\<rparr> = Inr gate_H
   \<and> transform gate_H X = Some \<lparr>to = Z, flip = False\<rparr>
   \<and> transform gate_H Z = Some \<lparr>to = X, flip = False\<rparr>
   \<and> transform gate_H Y = Some \<lparr>to = Y, flip = True\<rparr>
   \<and> assert_not_mirror gate_H \<and> assert_no_collision gate_H"
proof -
  have h: "to \<lparr>to = Z, flip = False\<rparr> \<noteq> to \<lparr>to = X, flip = False\<rparr>" by simp
  have g: "from_xz_map \<lparr>to = Z, flip = False\<rparr> \<lparr>to = X, flip = False\<rparr> = Inr gate_H"
    by (simp add: from_xz_map_def gate_H_def gate_of_def)
  have y: "transform gate_H Y = Some \<lparr>to = Y, flip = True\<rparr>"
    by (simp add: gate_H_def tableau_eval)
  from from_xz_map_round_trip[OF h] g y h show ?thesis by auto
qed

lemma gates_eval:
  "map (\<lambda>(trans_x, trans_z). from_xz_map trans_x trans_z) all_rotation_pairs =
    [Inr (gate_of X False Y False), Inr (gate_of X False Y True),
     Inr (gate_of X False Z False), Inr (gate_of X False Z True),
     Inr (gate_of X True Y False), Inr (gate_of X True Y True),
     Inr (gate_of X True Z False), Inr (gate_of X True Z True),
     Inr (gate_of Y False X False), Inr (gate_of Y False X True),
     Inr (gate_of Y False Z False), Inr (gate_of Y False Z True),
     Inr (gate_of Y True X False), Inr (gate_of Y True X True),
     Inr (gate_of Y True Z False), Inr (gate_of Y True Z True),
     Inr (gate_of Z False X False), Inr (gate_of Z False X True),
     Inr (gate_of Z False Y False), Inr (gate_of Z False Y True),
     Inr (gate_of Z True X False), Inr (gate_of Z True X True),
     Inr (gate_of Z True Y False), Inr (gate_of Z True Y True)]"
  unfolding all_rotation_pairs_eval by (simp add: from_xz_map_def gate_of_def)

lemma gate_of_inject:
  "gate_of px fx pz fz = gate_of px' fx' pz' fz' \<longleftrightarrow> px = px' \<and> fx = fx' \<and> pz = pz' \<and> fz = fz'"
  by (cases px; cases pz; cases px'; cases pz'; simp add: gate_of_def to_clifford_tableau_def) 

lemma gates_card:
  "card (set (map (\<lambda>(trans_x, trans_z). from_xz_map trans_x trans_z) all_rotation_pairs)) = 24"
  unfolding gates_eval by (simp add: card_insert_if gate_of_inject)

lemma tableau_number_gate_of:
  "tableau_number (clifford_tableau (gate_of px fx pz fz)) =
     ((if fst (pauli_bits px) then 1 else 0) + (if snd (pauli_bits px) then 2 else 0)
      + (if fst (pauli_bits pz) then 4 else 0) + (if snd (pauli_bits pz) then 8 else 0)) * 4
     + (if fx then 2 else 0) + (if fz then 1 else 0)"
  by (simp add: tableau_number_def gate_of_def to_clifford_tableau_def matrix_def)

lemma seen_tableau_eval:
  "seen_tableau = map Inr [52, 53, 36, 37, 54, 55, 38, 39, 28, 29, 44, 45, 30, 31, 46, 47,
                           24, 25, 56, 57, 26, 27, 58, 59]"
proof -
  have "seen_tableau = map (\<lambda>r. case r of Inl e \<Rightarrow> Inl e
                                 | Inr g \<Rightarrow> Inr (tableau_number (clifford_tableau g)))
                         (map (\<lambda>(trans_x, trans_z). from_xz_map trans_x trans_z) all_rotation_pairs)"
    by (simp add: seen_tableau_def split_def)
  then show ?thesis
    unfolding gates_eval by (simp add: tableau_number_gate_of)
qed

lemma seen_tableau_card: "card (set seen_tableau) = 24"
  unfolding seen_tableau_eval by (simp add: card_insert_if)

lemma pairs_symplectic:
  "list_all (\<lambda>(trans_x, trans_z).
       case from_xz_map trans_x trans_z of
         Inl e \<Rightarrow> False
       | Inr g \<Rightarrow>
           symplectic_assertion (clifford_tableau g)
         \<and> ((if xs (clifford_tableau g) ! 0 ! 0 then 1 else 0) * (if zs (clifford_tableau g) ! 1 ! 0 then 1 else 0)
            + (if xs (clifford_tableau g) ! 1 ! 0 then 1 else 0) * (if zs (clifford_tableau g) ! 0 ! 0 then 1 else 0)) mod 2
             = (1::nat))
     all_rotation_pairs"
  unfolding all_rotation_pairs_eval
  by (simp add: from_xz_map_def symplectic_assertion_def matrix_def to_clifford_tableau_def)

text \<open>
  C5. The pairs that the test module enumerates are exactly the pairs of Pauli transforms
  with distinct target axes; \<open>from_xz_map\<close> accepts each of them, the gates it builds are
  24 distinct tableaux (and the numbers the test computes from them are 24 distinct
  numbers), and every one of these tableaux passes the assertion of the test, that is,
  \<open>xs[0] * zs[1] + xs[1] * zs[0]\<close> is 1 modulo 2.
\<close>

theorem from_xz_to_clifford_tableau:
  "set all_rotation_pairs = {(trans_x, trans_z). to trans_x \<noteq> to trans_z}
   \<and> card (set (map (\<lambda>(trans_x, trans_z). from_xz_map trans_x trans_z) all_rotation_pairs)) = 24
   \<and> card (set seen_tableau) = 24
   \<and> list_all (\<lambda>(trans_x, trans_z).
         case from_xz_map trans_x trans_z of
           Inl e \<Rightarrow> False
         | Inr g \<Rightarrow>
             symplectic_assertion (clifford_tableau g)
           \<and> ((if xs (clifford_tableau g) ! 0 ! 0 then 1 else 0) * (if zs (clifford_tableau g) ! 1 ! 0 then 1 else 0)
              + (if xs (clifford_tableau g) ! 1 ! 0 then 1 else 0) * (if zs (clifford_tableau g) ! 0 ! 0 then 1 else 0)) mod 2
               = (1::nat))
       all_rotation_pairs"
  using pairs_cover gates_card seen_tableau_card pairs_symplectic by blast

lemma inverse_table:
  "list_all (\<lambda>g. case inverse_gate g of
                    Inl e \<Rightarrow> False
                  | Inr gi \<Rightarrow> gi \<in> set all_clifford_gates
                             \<and> merged_with g gi = gate_I \<and> merged_with gi g = gate_I)
     all_clifford_gates"
  by code_simp

lemma merged_table:
  "list_all (\<lambda>g. list_all (\<lambda>h. merged_with g h \<in> set all_clifford_gates) all_clifford_gates)
     all_clifford_gates"
  by code_simp

lemma identity_table:
  "gate_I \<in> set all_clifford_gates
   \<and> list_all (\<lambda>g. merged_with gate_I g = g \<and> merged_with g gate_I = g) all_clifford_gates"
  by code_simp

lemma from_xz_map_member:
  assumes "from_xz_map trans_x trans_z = Inr g"
  shows "g \<in> set all_clifford_gates"
proof -
  from assms have ne: "to trans_x \<noteq> to trans_z"
    and g: "g = SingleQubitCliffordGate (to_clifford_tableau trans_x trans_z)"
    by (auto simp: from_xz_map_def split: if_splits)
  from ne have "(trans_x, trans_z) \<in> set all_rotation_pairs" by (simp add: pairs_cover)
  then show ?thesis unfolding all_clifford_gates_def g by force
qed

lemma merged_member:
  "g \<in> set all_clifford_gates \<Longrightarrow> h \<in> set all_clifford_gates
   \<Longrightarrow> merged_with g h \<in> set all_clifford_gates"
  using merged_table by (auto simp: list_all_iff)

lemma repeated_member:
  "g \<in> set all_clifford_gates \<Longrightarrow> ((\<lambda>a. merged_with a g) ^^ k) gate_I \<in> set all_clifford_gates"
proof (induction k)
  case 0
  then show ?case using identity_table by simp
next
  case (Suc k)
  then show ?case by (simp add: merged_member)
qed

lemma inverse_member:
  assumes "g \<in> set all_clifford_gates"
  shows "\<exists>gi. inverse_gate g = Inr gi \<and> merged_with g gi = gate_I \<and> merged_with gi g = gate_I"
proof -
  from assms inverse_table
  have "case inverse_gate g of
          Inl e \<Rightarrow> False
        | Inr gi \<Rightarrow> gi \<in> set all_clifford_gates
                     \<and> merged_with g gi = gate_I \<and> merged_with gi g = gate_I"
    unfolding list_all_iff by blast
  then show ?thesis by (cases "inverse_gate g") auto
qed

lemma half_not_int: "(1/2 :: rat) \<notin> \<int>" "- (1/2 :: rat) \<notin> \<int>"
proof -
  show "(1/2 :: rat) \<notin> \<int>"
  proof
    assume "(1/2 :: rat) \<in> \<int>"
    then obtain k :: int where "(1/2 :: rat) = of_int k" by (auto elim: Ints_cases)
    then have "(1 :: rat) = of_int (2 * k)" by simp
    then have "(1::int) = 2 * k" using of_int_eq_iff[of 1 "2 * k", where 'a = rat] by simp
    then show False by presburger
  qed
  then show "- (1/2 :: rat) \<notin> \<int>" using Ints_minus[of "- (1/2 :: rat)"] by auto
qed

lemma pow_int:
  "pow g (of_int k) = int_pow g k"
proof -
  have "(of_int k :: rat) \<noteq> 1/2" "(of_int k :: rat) \<noteq> - (1/2)"
    using half_not_int by (metis Ints_of_int)+
  then show ?thesis by (simp add: pow_def)
qed

text \<open>The model agrees with the data of \<open>test_pow\<close>, \<open>test_y_rotation\<close> and with the
  meaning of the square-root family.\<close>

lemma test_pow_holds:
  "pow gate_X (-1) = Inr gate_X"
  "pow gate_H (-1) = Inr gate_H"
  "pow gate_X (1/2) = Inr gate_X_sqrt"
  "pow gate_Y (1/2) = Inr gate_Y_sqrt"
  "pow gate_Z (1/2) = Inr gate_Z_sqrt"
  "pow gate_X (- (1/2)) = Inr gate_X_nsqrt"
  "pow gate_Y (- (1/2)) = Inr gate_Y_nsqrt"
  "pow gate_Z (- (1/2)) = Inr gate_Z_nsqrt"
  "pow gate_X_sqrt (-1) = Inr gate_X_nsqrt"
  "inverse_gate gate_X_nsqrt = Inr gate_X_sqrt"
  "pow gate_Z (1/4) = Inl (TypeError ''unsupported operand type(s) for **'')"
  by code_simp+

lemma test_y_rotation_holds:
  "transform gate_I Y = Some \<lparr>to = Y, flip = False\<rparr>"
  "transform gate_H Y = Some \<lparr>to = Y, flip = True\<rparr>"
  "transform gate_X Y = Some \<lparr>to = Y, flip = True\<rparr>"
  "transform gate_Y Y = Some \<lparr>to = Y, flip = False\<rparr>"
  "transform gate_Z Y = Some \<lparr>to = Y, flip = True\<rparr>"
  "transform gate_X_sqrt Y = Some \<lparr>to = Z, flip = False\<rparr>"
  "transform gate_X_nsqrt Y = Some \<lparr>to = Z, flip = True\<rparr>"
  "transform gate_Y_sqrt Y = Some \<lparr>to = Y, flip = False\<rparr>"
  "transform gate_Y_nsqrt Y = Some \<lparr>to = Y, flip = False\<rparr>"
  "transform gate_Z_sqrt Y = Some \<lparr>to = X, flip = True\<rparr>"
  "transform gate_Z_nsqrt Y = Some \<lparr>to = X, flip = False\<rparr>"
  by code_simp+

lemma sqrt_family:
  "merged_with gate_X_sqrt gate_X_sqrt = gate_X"
  "merged_with gate_Y_sqrt gate_Y_sqrt = gate_Y"
  "merged_with gate_Z_sqrt gate_Z_sqrt = gate_Z"
  "merged_with gate_X_nsqrt gate_X_nsqrt = gate_X"
  "merged_with gate_Y_nsqrt gate_Y_nsqrt = gate_Y"
  "merged_with gate_Z_nsqrt gate_Z_nsqrt = gate_Z"
  "merged_with gate_X_sqrt gate_X_nsqrt = gate_I"
  "merged_with gate_Y_sqrt gate_Y_nsqrt = gate_I"
  "merged_with gate_Z_sqrt gate_Z_nsqrt = gate_I"
  by code_simp+

text \<open>
  C7 (as the tests have it). For a gate \<open>g\<close> built by \<open>from_xz_map\<close>: raising it to a
  non-negative integer is that many compositions of \<open>g\<close>, starting from the identity;
  \<open>g ** -1\<close> is the inverse of \<open>g\<close>, and raising to a negative integer is the inverse of
  the corresponding positive power; a non-integer exponent is a type error, except that
  the exponents 1/2 and -1/2 on the Pauli gates X, Y and Z give the gates of the
  square-root family.
\<close>

theorem pow_integer_or_sqrt:
  assumes "from_xz_map trans_x trans_z = Inr g"
  shows "(\<forall>k::nat. pow g (of_nat k) = Inr (((\<lambda>a. merged_with a g) ^^ k) gate_I))
       \<and> pow g 1 = Inr g
       \<and> (\<exists>gi. pow g (- 1) = Inr gi \<and> merged_with g gi = gate_I \<and> merged_with gi g = gate_I)
       \<and> (\<forall>k::nat. \<exists>gk gi. pow g (of_nat k) = Inr gk \<and> pow g (- of_nat k) = Inr gi
              \<and> merged_with gk gi = gate_I \<and> merged_with gi gk = gate_I)
       \<and> (\<forall>e. e \<notin> \<int> \<and> \<not> ((e = 1/2 \<or> e = - (1/2)) \<and> g \<in> {gate_X, gate_Y, gate_Z})
              \<longrightarrow> (\<exists>m. pow g e = Inl (TypeError m)))
       \<and> pow gate_X (1/2) = Inr gate_X_sqrt \<and> pow gate_X (- (1/2)) = Inr gate_X_nsqrt
       \<and> pow gate_Y (1/2) = Inr gate_Y_sqrt \<and> pow gate_Y (- (1/2)) = Inr gate_Y_nsqrt
       \<and> pow gate_Z (1/2) = Inr gate_Z_sqrt \<and> pow gate_Z (- (1/2)) = Inr gate_Z_nsqrt"
proof -
  let ?rep = "\<lambda>k. ((\<lambda>a. merged_with a g) ^^ k) gate_I"
  have mem: "g \<in> set all_clifford_gates" using assms by (rule from_xz_map_member)
  have nat: "pow g (of_nat k) = Inr (?rep k)" for k
    using pow_int[of g "int k"] by (simp add: int_pow_def)
  have one: "pow g 1 = Inr g"
  proof -
    have "merged_with gate_I g = g" using identity_table mem by (auto simp: list_all_iff)
    then show ?thesis using nat[of 1] by simp
  qed
  have neg: "\<exists>gi. pow g (- of_nat k) = Inr gi
              \<and> merged_with (?rep k) gi = gate_I \<and> merged_with gi (?rep k) = gate_I" for k
  proof (cases k)
    case 0
    have "merged_with gate_I gate_I = gate_I" using identity_table by (auto simp: list_all_iff)
    then show ?thesis using pow_int[of g 0] 0 by (simp add: int_pow_def)
  next
    case (Suc j)
    have kpos: "0 < k" using Suc by simp
    have "int_pow g (- int k) = inverse_gate (?rep k)"
      using kpos by (simp add: int_pow_def)
    moreover have "pow g (- of_nat k) = int_pow g (- int k)"
      using pow_int[of g "- int k"] by simp
    ultimately have "pow g (- of_nat k) = inverse_gate (?rep k)" by simp
    then show ?thesis using inverse_member[OF repeated_member[OF mem, of k]] by simp
  qed
  have inv: "\<exists>gi. pow g (- 1) = Inr gi \<and> merged_with g gi = gate_I \<and> merged_with gi g = gate_I"
  proof -
    have "?rep 1 = g" using identity_table mem by (auto simp: list_all_iff)
    then show ?thesis using neg[of 1] by simp
  qed
  have frac: "\<exists>m. pow g e = Inl (TypeError m)"
    if "e \<notin> \<int> \<and> \<not> ((e = 1/2 \<or> e = - (1/2)) \<and> g \<in> {gate_X, gate_Y, gate_Z})" for e
    using that by (auto simp: pow_def)
  show ?thesis
    using nat one inv neg frac test_pow_holds(3-8) by (intro conjI allI impI) auto
qed

theorem pow_integer_or_sqrt_witness:
  "from_xz_map \<lparr>to = X, flip = False\<rparr> \<lparr>to = Y, flip = True\<rparr> = Inr gate_X_sqrt
   \<and> pow gate_X_sqrt 2 = Inr gate_X
   \<and> pow gate_X_sqrt (- 1) = Inr gate_X_nsqrt
   \<and> (1/4 :: rat) \<notin> \<int>
   \<and> (\<exists>m. pow gate_X_sqrt (1/4) = Inl (TypeError m))"
proof -
  have a: "from_xz_map \<lparr>to = X, flip = False\<rparr> \<lparr>to = Y, flip = True\<rparr> = Inr gate_X_sqrt"
    by (simp add: from_xz_map_def gate_X_sqrt_def gate_of_def)
  note t = pow_integer_or_sqrt[OF a]
  have q: "(1/4 :: rat) \<notin> \<int>"
  proof
    assume "(1/4 :: rat) \<in> \<int>"
    then obtain k :: int where "(1/4 :: rat) = of_int k" by (auto elim: Ints_cases)
    then have "(1 :: rat) = of_int (4 * k)" by simp
    then have "(1::int) = 4 * k" using of_int_eq_iff[of 1 "4 * k", where 'a = rat] by simp
    then show False by presburger
  qed
  have ne: "gate_X_sqrt \<notin> {gate_X, gate_Y, gate_Z}" by code_simp
  from t have "pow gate_X_sqrt (of_nat 2) = Inr (((\<lambda>a. merged_with a gate_X_sqrt) ^^ 2) gate_I)"
    by blast
  moreover have "((\<lambda>a. merged_with a gate_X_sqrt) ^^ 2) gate_I = gate_X" by code_simp
  ultimately have 1: "pow gate_X_sqrt 2 = Inr gate_X" by simp
  have 2: "pow gate_X_sqrt (- 1) = Inr gate_X_nsqrt" by (rule test_pow_holds)
  from t q ne have 3: "\<exists>m. pow gate_X_sqrt (1/4) = Inl (TypeError m)" by blast
  show ?thesis using a 1 2 q 3 by blast
qed

theorem pow_half_counterexample:
  "from_xz_map \<lparr>to = X, flip = False\<rparr> \<lparr>to = Z, flip = True\<rparr> = Inr gate_X
   \<and> (1/2 :: rat) \<notin> \<int>
   \<and> pow gate_X (1/2) = Inr gate_X_sqrt"
proof -
  have "from_xz_map \<lparr>to = X, flip = False\<rparr> \<lparr>to = Z, flip = True\<rparr> = Inr gate_X"
    by (simp add: from_xz_map_def gate_X_def gate_of_def)
  then show ?thesis using half_not_int(1) test_pow_holds(3) by blast
qed

section \<open>A compiled Clifford gate against its operations\<close>

subsection \<open>Positions\<close>

lemma position_Some: "position l a = Some i \<Longrightarrow> i < length l \<and> l ! i = a"
proof (induction l arbitrary: i)
  case Nil
  then show ?case by simp
next
  case (Cons b bs)
  then show ?case by (cases "a = b") (auto split: if_splits)
qed

lemma position_member: "a \<in> set l \<Longrightarrow> \<exists>i. position l a = Some i"
  by (induction l) auto

lemma position_nth: "distinct l \<Longrightarrow> i < length l \<Longrightarrow> position l (l ! i) = Some i"
proof (induction l arbitrary: i)
  case Nil
  then show ?case by simp
next
  case (Cons b bs)
  show ?case
  proof (cases i)
    case 0
    then show ?thesis by simp
  next
    case (Suc j)
    with Cons.prems have "bs ! j \<noteq> b" "j < length bs" "distinct bs" by auto
    with Cons.IH[of j] Suc show ?thesis by simp
  qed
qed

lemma position_upt: "q < n \<Longrightarrow> position [0..<n] q = Some q"
  using position_nth[of "[0..<n]" q] by simp

lemma axes_of_ok:
  assumes "list_all (\<lambda>q. q \<in> set all_qubits) qs"
  shows "\<exists>axes. axes_of all_qubits qs = Inr axes
           \<and> length axes = length qs
           \<and> (\<forall>j < length qs. position all_qubits (qs ! j) = Some (axes ! j))"
  using assms
proof (induction qs)
  case Nil
  then show ?case by simp
next
  case (Cons q qs)
  then obtain axes where a: "axes_of all_qubits qs = Inr axes" "length axes = length qs"
    "\<forall>j < length qs. position all_qubits (qs ! j) = Some (axes ! j)" by auto
  from Cons.prems obtain i where i: "position all_qubits q = Some i"
    using position_member[of q all_qubits] by auto
  have "\<forall>j < length (q # qs). position all_qubits ((q # qs) ! j) = Some ((i # axes) ! j)"
  proof (intro allI impI)
    fix j assume "j < length (q # qs)"
    then show "position all_qubits ((q # qs) ! j) = Some ((i # axes) ! j)"
      using a(3) i by (cases j) auto
  qed
  then show ?case using a i by simp
qed

lemma axes_of_self:
  assumes "distinct all_qubits"
  shows "axes_of all_qubits all_qubits = Inr [0..<length all_qubits]"
proof -
  have "list_all (\<lambda>q. q \<in> set all_qubits) all_qubits" by (simp add: list_all_iff)
  from axes_of_ok[OF this] obtain axes where a: "axes_of all_qubits all_qubits = Inr axes"
    "length axes = length all_qubits"
    "\<forall>j < length all_qubits. position all_qubits (all_qubits ! j) = Some (axes ! j)" by blast
  have "axes = [0..<length all_qubits]"
  proof (rule nth_equalityI)
    show "length axes = length [0..<length all_qubits]" using a(2) by simp
    fix j assume "j < length axes"
    then have j: "j < length all_qubits" using a(2) by simp
    with a(3) position_nth[OF assms j] show "axes ! j = [0..<length all_qubits] ! j" by simp
  qed
  with a(1) show ?thesis by simp
qed

lemma axes_distinct:
  assumes "distinct qs" and "length axes = length qs"
    and "\<forall>j < length qs. position all_qubits (qs ! j) = Some (axes ! j)"
  shows "distinct axes" and "\<forall>a \<in> set axes. a < length all_qubits"
proof -
  show "distinct axes"
    unfolding distinct_conv_nth
  proof (intro allI impI)
    fix i j assume ij: "i < length axes" "j < length axes" "i \<noteq> j"
    show "axes ! i \<noteq> axes ! j"
    proof
      assume e: "axes ! i = axes ! j"
      from ij assms have "all_qubits ! (axes ! i) = qs ! i" "all_qubits ! (axes ! j) = qs ! j"
        using position_Some by fastforce+
      with e have "qs ! i = qs ! j" by simp
      with ij assms(1,2) show False by (simp add: distinct_conv_nth)
    qed
  qed
  show "\<forall>a \<in> set axes. a < length all_qubits"
  proof
    fix a assume "a \<in> set axes"
    then obtain j where "j < length axes" "axes ! j = a" by (auto simp: in_set_conv_nth)
    with assms show "a < length all_qubits" using position_Some by fastforce
  qed
qed

lemma distinct_bounded_length:
  assumes "distinct (l :: nat list)" and "\<forall>a \<in> set l. a < m"
  shows "length l \<le> m"
proof -
  have "set l \<subseteq> {..<m}" using assms(2) by auto
  then have "card (set l) \<le> card {..<m}" by (intro card_mono) auto
  then show ?thesis using assms(1) by (simp add: distinct_card)
qed

subsection \<open>Padding\<close>

lemma length_pad_row [simp]: "length (pad_row m axes row) = m"
  by (simp add: pad_row_def)

lemma length_unit_bits [simp]: "length (unit_bits m q) = m"
  by (simp add: unit_bits_def)

lemma pad_tableau_ok:
  assumes "length (remdups axes) = num_qubits T" and "num_qubits T \<le> m"
  shows "\<exists>P. pad_tableau T m axes = Inr P \<and> well_formed P \<and> num_qubits P = m"
  using assms
  by (auto simp: pad_tableau_def Let_def well_formed_def list_all_iff split: option.splits)

lemma pad_row_all:
  assumes "length row = n"
  shows "pad_row n [0..<n] row = row"
proof (rule nth_equalityI)
  show "length (pad_row n [0..<n] row) = length row" using assms by simp
  fix c assume "c < length (pad_row n [0..<n] row)"
  then have c: "c < n" by simp
  then show "pad_row n [0..<n] row ! c = row ! c"
    by (simp add: pad_row_def position_upt)
qed

lemma split_rows:
  assumes "length l = 2 * n"
    and "\<And>q. q < n \<Longrightarrow> f q = l ! q"
    and "\<And>q. q < n \<Longrightarrow> g q = l ! (n + q)"
  shows "map f [0..<n] @ map g [0..<n] = l"
proof (rule nth_equalityI)
  show "length (map f [0..<n] @ map g [0..<n]) = length l" using assms(1) by simp
  fix i assume "i < length (map f [0..<n] @ map g [0..<n])"
  then have i: "i < 2 * n" by simp
  show "(map f [0..<n] @ map g [0..<n]) ! i = l ! i"
  proof (cases "i < n")
    case True
    then show ?thesis using assms(2) by (simp add: nth_append)
  next
    case False
    with i have "i - n < n" "n + (i - n) = i" by auto
    with False assms(3)[of "i - n"] show ?thesis by (simp add: nth_append)
  qed
qed

lemma pad_tableau_all:
  assumes "well_formed T"
  shows "pad_tableau T (num_qubits T) [0..<num_qubits T] = Inr T"
proof -
  let ?n = "num_qubits T"
  from assms have lx: "length (xs T) = 2 * ?n" and lz: "length (zs T) = 2 * ?n"
    and lr: "length (rs T) = 2 * ?n"
    and rx: "\<And>i. i < 2 * ?n \<Longrightarrow> length (xs T ! i) = ?n"
    and rz: "\<And>i. i < 2 * ?n \<Longrightarrow> length (zs T ! i) = ?n"
    by (auto simp: well_formed_def list_all_length)
  have X: "map (\<lambda>q. case position [0..<?n] q of
                          None \<Rightarrow> unit_bits ?n q
                        | Some i \<Rightarrow> pad_row ?n [0..<?n] (xs T ! i)) [0..<?n]
              @ map (\<lambda>q. case position [0..<?n] q of
                          None \<Rightarrow> replicate ?n False
                        | Some i \<Rightarrow> pad_row ?n [0..<?n] (xs T ! (?n + i))) [0..<?n] = xs T"
    by (rule split_rows[OF lx]) (simp_all add: position_upt pad_row_all rx)
  have Z: "map (\<lambda>q. case position [0..<?n] q of
                          None \<Rightarrow> replicate ?n False
                        | Some i \<Rightarrow> pad_row ?n [0..<?n] (zs T ! i)) [0..<?n]
              @ map (\<lambda>q. case position [0..<?n] q of
                          None \<Rightarrow> unit_bits ?n q
                        | Some i \<Rightarrow> pad_row ?n [0..<?n] (zs T ! (?n + i))) [0..<?n] = zs T"
    by (rule split_rows[OF lz]) (simp_all add: position_upt pad_row_all rz)
  have R: "map (\<lambda>q. case position [0..<?n] q of
                          None \<Rightarrow> False
                        | Some i \<Rightarrow> rs T ! i) [0..<?n]
              @ map (\<lambda>q. case position [0..<?n] q of
                          None \<Rightarrow> False
                        | Some i \<Rightarrow> rs T ! (?n + i)) [0..<?n] = rs T"
    by (rule split_rows[OF lr]) (simp_all add: position_upt)
  show ?thesis
    unfolding pad_tableau_def Let_def X Z R by simp
qed

subsection \<open>Composition\<close>

lemma foldl_invariant:
  assumes "Inv a" and "\<And>acc q. q \<in> set qs \<Longrightarrow> Inv acc \<Longrightarrow> Inv (f acc q)"
  shows "Inv (foldl f a qs)"
  using assms by (induction qs arbitrary: a) auto

lemma foldl_single:
  assumes "distinct qs" and "i \<in> set qs"
    and "\<And>acc q. q \<in> set qs \<Longrightarrow> q \<noteq> i \<Longrightarrow> f acc q = acc"
  shows "foldl f a qs = f a i"
  using assms
proof (induction qs arbitrary: a)
  case Nil
  then show ?case by simp
next
  case (Cons q qs)
  show ?case
  proof (cases "q = i")
    case True
    with Cons.prems have "\<And>acc q'. q' \<in> set qs \<Longrightarrow> f acc q' = acc" by auto
    then have "foldl f b qs = b" for b by (induction qs arbitrary: b) auto
    with True show ?thesis by simp
  next
    case False
    with Cons.prems have "f a q = a" "i \<in> set qs" "distinct qs" by auto
    with Cons.IH[of a] Cons.prems(3) show ?thesis by simp
  qed
qed

lemma length_xor_bits [simp]: "length (xor_bits a b) = min (length a) (length b)"
  by (simp add: xor_bits_def)

lemma xor_bits_zero_left: "length b = n \<Longrightarrow> xor_bits (replicate n False) b = b"
  by (rule nth_equalityI) (simp_all add: xor_bits_def)

lemma overlap_zero_left [simp]: "overlap (replicate n False) b = 0"
proof -
  have "\<forall>p \<in> set (zip (replicate n False) b). \<not> (fst p \<and> snd p)"
    by (auto dest: set_zip_leftD)
  then show ?thesis by (auto simp: overlap_def filter_empty_conv)
qed

lemma overlap_zero_right [simp]: "overlap a (replicate n False) = 0"
proof -
  have "\<forall>p \<in> set (zip a (replicate n False)). \<not> (fst p \<and> snd p)"
    by (auto dest: set_zip_rightD)
  then show ?thesis by (auto simp: overlap_def filter_empty_conv)
qed

lemma image_of_lengths:
  assumes "well_formed T"
  shows "length (ps_x (image_of T P)) = num_qubits T \<and> length (ps_z (image_of T P)) = num_qubits T"
proof -
  let ?n = "num_qubits T"
  from assms have rx: "\<And>i. i < 2 * ?n \<Longrightarrow> length (xs T ! i) = ?n"
    and rz: "\<And>i. i < 2 * ?n \<Longrightarrow> length (zs T ! i) = ?n"
    by (auto simp: well_formed_def list_all_length)
  show ?thesis
    unfolding image_of_def
  proof (rule foldl_invariant[where Inv = "\<lambda>acc :: pauli_string. length (ps_x acc) = ?n \<and> length (ps_z acc) = ?n"])
    show "length (ps_x \<lparr>ps_phase = ps_phase P mod 4, ps_x = replicate ?n False,
                        ps_z = replicate ?n False\<rparr>) = ?n
        \<and> length (ps_z \<lparr>ps_phase = ps_phase P mod 4, ps_x = replicate ?n False,
                        ps_z = replicate ?n False\<rparr>) = ?n" by simp
  next
    fix acc :: pauli_string and q
    assume "q \<in> set [0..<?n]" and "length (ps_x acc) = ?n \<and> length (ps_z acc) = ?n"
    then show "length (ps_x (image_step T P acc q)) = ?n \<and> length (ps_z (image_step T P acc q)) = ?n"
      by (simp add: image_step_def Let_def mul_pauli_string_def row_string_def rx rz)
  qed
qed

lemma then_tableau_well_formed:
  assumes "well_formed T2" and "num_qubits T2 = num_qubits T1"
  shows "well_formed (then_tableau T1 T2)" and "num_qubits (then_tableau T1 T2) = num_qubits T1"
proof -
  have l: "length (ps_x (image_of T2 P)) = num_qubits T1" "length (ps_z (image_of T2 P)) = num_qubits T1" for P
    using image_of_lengths[OF assms(1), of P] assms(2) by simp_all
  show "well_formed (then_tableau T1 T2)"
    unfolding then_tableau_def Let_def well_formed_def list_all_iff
    by (simp add: l)
  show "num_qubits (then_tableau T1 T2) = num_qubits T1"
    by (simp add: then_tableau_def Let_def)
qed

lemma identity_well_formed: "well_formed (identity_tableau m)" "num_qubits (identity_tableau m) = m"
  by (simp_all add: identity_tableau_def well_formed_def list_all_iff ball_Un)

lemma sign_of_row:
  "(((2 * (if b then 1 else 0) + v) mod 4 + 4 - v mod 4) mod 4) div 2 = (1::nat) \<longleftrightarrow> b"
proof -
  define w where "w = v mod 4"
  have w: "w < 4" by (simp add: w_def)
  have e: "(k + v) mod 4 = (k + w) mod 4" for k
    unfolding w_def by (simp add: mod_add_right_eq)
  from w consider "w = 0" | "w = 1" | "w = 2" | "w = 3" by linarith
  then have t: "((2 + w) mod 4 + 4 - w) mod 4 = 2"
    by cases simp_all
  have f: "(w mod 4 + 4 - w) mod 4 = 0" using w by simp
  show ?thesis
  proof (cases b)
    case True
    then show ?thesis using t e[of 2] by (simp add: w_def[symmetric])
  next
    case False
    then show ?thesis using f e[of 0] by (simp add: w_def[symmetric])
  qed
qed

lemma string_sign_row: "string_sign (row_string T i) = rs T ! i"
  using sign_of_row[of "rs T ! i" "overlap (xs T ! i) (zs T ! i)"]
  by (simp add: string_sign_def row_string_def)

lemma unit_bits_nth [simp]: "q < m \<Longrightarrow> unit_bits m i ! q = (q = i)"
  by (simp add: unit_bits_def)

lemma row_identity:
  assumes "i < n"
  shows "row_string (identity_tableau n) i
           = \<lparr>ps_phase = 0, ps_x = unit_bits n i, ps_z = replicate n False\<rparr>"
    and "row_string (identity_tableau n) (n + i)
           = \<lparr>ps_phase = 0, ps_x = replicate n False, ps_z = unit_bits n i\<rparr>"
  using assms by (simp_all add: row_string_def identity_tableau_def nth_append)

lemma row_string_phase: "ps_phase (row_string T i) mod 4 = ps_phase (row_string T i)"
  by (simp add: row_string_def)

lemma mul_from_one:
  assumes "length (xs T ! i) = n" and "length (zs T ! i) = n"
  shows "mul_pauli_string \<lparr>ps_phase = 0, ps_x = replicate n False, ps_z = replicate n False\<rparr>
           (row_string T i) = row_string T i"
  using assms
  by (simp add: mul_pauli_string_def xor_bits_zero_left row_string_def)

lemma image_of_unit:
  assumes "well_formed T" and "i < num_qubits T"
  shows "image_of T \<lparr>ps_phase = 0, ps_x = unit_bits (num_qubits T) i,
                     ps_z = replicate (num_qubits T) False\<rparr> = row_string T i"
    and "image_of T \<lparr>ps_phase = 0, ps_x = replicate (num_qubits T) False,
                     ps_z = unit_bits (num_qubits T) i\<rparr> = row_string T (num_qubits T + i)"
proof -
  let ?n = "num_qubits T"
  let ?one = "\<lparr>ps_phase = 0, ps_x = replicate ?n False, ps_z = replicate ?n False\<rparr>"
  let ?PX = "\<lparr>ps_phase = 0, ps_x = unit_bits ?n i, ps_z = replicate ?n False\<rparr>"
  let ?PZ = "\<lparr>ps_phase = 0, ps_x = replicate ?n False, ps_z = unit_bits ?n i\<rparr>"
  from assms have rx: "\<And>j. j < 2 * ?n \<Longrightarrow> length (xs T ! j) = ?n"
    and rz: "\<And>j. j < 2 * ?n \<Longrightarrow> length (zs T ! j) = ?n"
    by (auto simp: well_formed_def list_all_length)
  have d: "distinct [0..<?n]" "i \<in> set [0..<?n]" using assms(2) by simp_all
  have "foldl (image_step T ?PX) ?one [0..<?n] = image_step T ?PX ?one i"
    by (rule foldl_single[OF d]) (simp add: image_step_def)
  also have "\<dots> = row_string T i"
    using assms(2) by (simp add: image_step_def mul_from_one rx rz)
  finally show "image_of T ?PX = row_string T i" by (simp add: image_of_def)
  have "foldl (image_step T ?PZ) ?one [0..<?n] = image_step T ?PZ ?one i"
    by (rule foldl_single[OF d]) (simp add: image_step_def)
  also have "\<dots> = row_string T (?n + i)"
    using assms(2) by (simp add: image_step_def mul_from_one rx rz)
  finally show "image_of T ?PZ = row_string T (?n + i)" by (simp add: image_of_def)
qed

lemma image_of_identity_row:
  assumes "well_formed T" and "i < 2 * num_qubits T"
  shows "image_of T (row_string (identity_tableau (num_qubits T)) i) = row_string T i"
proof (cases "i < num_qubits T")
  case True
  then show ?thesis using image_of_unit(1)[OF assms(1) True] by (simp add: row_identity)
next
  case False
  with assms(2) have j: "i - num_qubits T < num_qubits T" "num_qubits T + (i - num_qubits T) = i"
    by auto
  show ?thesis
    using image_of_unit(2)[OF assms(1) j(1)] row_identity(2)[OF j(1)] j(2) by simp
qed

lemma then_identity_left:
  assumes "well_formed T"
  shows "then_tableau (identity_tableau (num_qubits T)) T = T"
proof -
  let ?n = "num_qubits T"
  from assms have lx: "length (xs T) = 2 * ?n" and lz: "length (zs T) = 2 * ?n"
    and lr: "length (rs T) = 2 * ?n"
    by (auto simp: well_formed_def)
  have rows: "map (\<lambda>i. image_of T (row_string (identity_tableau ?n) i)) [0..<2 * ?n]
                = map (row_string T) [0..<2 * ?n]"
    by (rule map_cong) (simp_all add: image_of_identity_row[OF assms])
  have X: "map ps_x (map (row_string T) [0..<2 * ?n]) = xs T"
    using map_nth[of "xs T"] lx by (simp add: row_string_def comp_def)
  have Z: "map ps_z (map (row_string T) [0..<2 * ?n]) = zs T"
    using map_nth[of "zs T"] lz by (simp add: row_string_def comp_def)
  have R: "map string_sign (map (row_string T) [0..<2 * ?n]) = rs T"
    using map_nth[of "rs T"] lr by (simp add: string_sign_row comp_def)
  have "then_tableau (identity_tableau ?n) T
          = \<lparr>num_qubits = ?n, xs = xs T, zs = zs T, rs = rs T\<rparr>"
    unfolding then_tableau_def Let_def identity_well_formed(2) rows X Z R by simp
  then show ?thesis by simp
qed

lemma act_on_operation_ok:
  assumes a: "acts_on all_qubits op"
    and q: "ct_qubits args = all_qubits"
    and w: "well_formed (tableau args)"
    and n: "num_qubits (tableau args) = length all_qubits"
  shows "\<exists>args'. act_on_operation op args = Inr args' \<and> ct_qubits args' = all_qubits
           \<and> well_formed (tableau args') \<and> num_qubits (tableau args') = length all_qubits"
proof -
  from a obtain G where G: "op_tableau op = Some G" and d: "distinct (op_qubits op)"
    and m: "list_all (\<lambda>q. q \<in> set all_qubits) (op_qubits op)"
    and l: "length (op_qubits op) = num_qubits G"
    by (auto simp: acts_on_def split: option.splits)
  from axes_of_ok[OF m] obtain axes where ax: "axes_of all_qubits (op_qubits op) = Inr axes"
    "length axes = length (op_qubits op)"
    "\<forall>j < length (op_qubits op). position all_qubits (op_qubits op ! j) = Some (axes ! j)"
    by blast
  note ad = axes_distinct[OF d ax(2,3)]
  have r: "length (remdups axes) = num_qubits G"
    using ad(1) ax(2) l by (simp add: distinct_remdups_id)
  have le: "num_qubits G \<le> length all_qubits"
    using distinct_bounded_length[OF ad] ax(2) l by simp
  from pad_tableau_ok[OF r le] obtain P where P: "pad_tableau G (length all_qubits) axes = Inr P"
    "well_formed P" "num_qubits P = length all_qubits" by blast
  have "act_on_operation op args = Inr (args\<lparr>tableau := then_tableau (tableau args) P\<rparr>)"
    using G ax(1) P(1) q by (simp add: act_on_operation_def act_on_tableau_def)
  moreover have "well_formed (then_tableau (tableau args) P)"
    "num_qubits (then_tableau (tableau args) P) = length all_qubits"
    using then_tableau_well_formed[of P "tableau args"] P(2,3) n by simp_all
  ultimately show ?thesis using q by simp
qed

lemma act_on_each_ok:
  assumes "list_all (acts_on all_qubits) operations"
    and "ct_qubits args = all_qubits"
    and "well_formed (tableau args)"
    and "num_qubits (tableau args) = length all_qubits"
  shows "\<exists>args'. act_on_each operations args = Inr args' \<and> ct_qubits args' = all_qubits
           \<and> well_formed (tableau args') \<and> num_qubits (tableau args') = length all_qubits"
  using assms
proof (induction operations arbitrary: args)
  case Nil
  then show ?case by simp
next
  case (Cons op ops)
  from Cons.prems have "acts_on all_qubits op" "list_all (acts_on all_qubits) ops" by simp_all
  from act_on_operation_ok[OF this(1) Cons.prems(2,3,4)] obtain args1 where
    s: "act_on_operation op args = Inr args1" "ct_qubits args1 = all_qubits"
    "well_formed (tableau args1)" "num_qubits (tableau args1) = length all_qubits" by blast
  from Cons.IH[OF \<open>list_all (acts_on all_qubits) ops\<close> s(2,3,4)] s(1)
  show ?case by simp
qed

lemma fresh_args_ok:
  "ct_qubits (fresh_args all_qubits) = all_qubits"
  "well_formed (tableau (fresh_args all_qubits))"
  "num_qubits (tableau (fresh_args all_qubits)) = length all_qubits"
  by (simp_all add: fresh_args_def identity_well_formed)

text \<open>
  C4. Take distinct qubits and any sequence of operations, each with a stabilizer effect
  on distinct qubits among them (single- and two-qubit Clifford operations in particular,
  in any number). Applying the operations one by one to a new tableau-backed simulation
  state succeeds, \<open>from_op_list\<close> compiles them into one gate, applying that gate to
  another new state on the same qubits succeeds, and the two states end with equal
  tableaux.
\<close>

theorem compiled_gate_acts_like_operations:
  assumes "distinct all_qubits" and "list_all (acts_on all_qubits) operations"
  shows "\<exists>args1 gate args2.
           act_on_each operations (fresh_args all_qubits) = Inr args1
         \<and> from_op_list operations all_qubits = Inr gate
         \<and> act_on_clifford_gate gate (fresh_args all_qubits) all_qubits = Inr args2
         \<and> tableau args1 = tableau args2"
proof -
  let ?n = "length all_qubits"
  from act_on_each_ok[OF assms(2) fresh_args_ok] obtain args1 where
    s: "act_on_each operations (fresh_args all_qubits) = Inr args1"
    "well_formed (tableau args1)" "num_qubits (tableau args1) = ?n" by blast
  have "\<not> (\<exists>op \<in> set operations. op_tableau op = None)"
    using assms(2) by (fastforce simp: list_all_iff acts_on_def split: option.splits)
  then have g: "from_op_list operations all_qubits = Inr (CliffordGate (tableau args1))"
    using s(1) by (simp add: from_op_list_def)
  have p: "pad_tableau (tableau args1) ?n [0..<?n] = Inr (tableau args1)"
    using pad_tableau_all[OF s(2)] s(3) by simp
  have t: "then_tableau (identity_tableau ?n) (tableau args1) = tableau args1"
    using then_identity_left[OF s(2)] s(3) by simp
  have "act_on_clifford_gate (CliffordGate (tableau args1)) (fresh_args all_qubits) all_qubits
          = Inr ((fresh_args all_qubits)\<lparr>tableau := tableau args1\<rparr>)"
    using axes_of_self[OF assms(1)] p t
    by (simp add: act_on_clifford_gate_def act_on_tableau_def fresh_args_def)
  with s(1) g show ?thesis by simp
qed

lemma test_from_op_list_holds:
  "from_op_list [opH 1, opCZ 0 1, opH 1] [0, 1] = Inr (CliffordGate tableau_CNOT)"
  by code_simp

theorem compiled_gate_acts_like_operations_witness:
  "distinct [0::nat, 1] \<and> list_all (acts_on [0::nat, 1]) [opH 1, opCZ 0 1, opH 1]
   \<and> (\<exists>args1 args2.
         act_on_each [opH 1, opCZ 0 1, opH 1] (fresh_args [0, 1]) = Inr args1
       \<and> act_on_clifford_gate (CliffordGate tableau_CNOT) (fresh_args [0::nat, 1]) [0::nat, 1] = Inr args2
       \<and> tableau args1 = tableau args2)"
proof -
  have d: "distinct [0::nat, 1]" by simp
  have a: "list_all (acts_on [0, 1]) [opH 1, opCZ 0 1, opH 1]"
    by (simp add: acts_on_def opH_def opCZ_def tableau_H_def tableau_CZ_def)
  from compiled_gate_acts_like_operations[OF d a] obtain args1 gate args2 where
    r: "act_on_each [opH 1, opCZ 0 1, opH 1] (fresh_args [0::nat, 1]) = Inr args1"
    "from_op_list [opH 1, opCZ 0 1, opH 1] [0::nat, 1] = Inr gate"
    "act_on_clifford_gate gate (fresh_args [0::nat, 1]) [0::nat, 1] = Inr args2"
    "tableau args1 = tableau args2" by blast
  from r(2) have "gate = CliffordGate tableau_CNOT"
    unfolding test_from_op_list_holds by simp
  with r d a show ?thesis by blast
qed

text \<open>The model agrees with the data of \<open>test_clifford_gate_from_op_list\<close> (the order of
  the qubits matters) and of \<open>test_pad_tableau\<close>.\<close>

lemma test_from_op_list_order_holds:
  "from_op_list [opH 1, \<lparr>op_tableau = Some tableau_CNOT, op_qubits = [0, 1]\<rparr>, opH 1] [0, 1]
     = Inr (CliffordGate tableau_CZ)"
  "from_op_list [opH 0, opCZ 1 0, opH 0] [0, 1] \<noteq> Inr (CliffordGate tableau_CNOT)"
  "from_op_list [opH 0, opCZ 1 0, opH 0] [1, 0] = Inr (CliffordGate tableau_CNOT)"
  by code_simp+

lemma test_pad_tableau_holds:
  "pad_tableau (identity_tableau 1) 2 [0] = Inr (identity_tableau 2)"
  "map_sum id matrix (pad_tableau tableau_H 2 [0])
     = Inr [[False, False, True, False], [False, True, False, False],
            [True, False, False, False], [False, False, False, True]]"
  "map_sum id rs (pad_tableau tableau_H 2 [0]) = Inr [False, False, False, False]"
  "map_sum id matrix (pad_tableau tableau_H 2 [1])
     = Inr [[True, False, False, False], [False, False, False, True],
            [False, False, True, False], [False, True, False, False]]"
  "map_sum id rs (pad_tableau tableau_H 2 [1]) = Inr [False, False, False, False]"
  "pad_tableau (identity_tableau 3) 4 [1, 2]
     = Inl (ValueError ''Input axes of padding should match with the number of qubits in the input tableau.'')"
  "pad_tableau (identity_tableau 3) 2 [0, 1, 2]
     = Inl (ValueError ''The number of qubits in the input tableau should not be larger than num_qubits_after_padding.'')"
  by code_simp+

end
